theory Spec2Isabelle
  imports Complex_Main "HOL-Library.AList" "HOL-Library.Multiset" "HOL-Library.Sublist"
begin

section \<open>Python values\<close>

text \<open>
  The values the scripts handle are the results of \<^verbatim>\<open>json.loads\<close>: \<^verbatim>\<open>None\<close>, booleans,
  integers, floats, strings, lists and dictionaries. A finite float is the real number it
  denotes; the three non-finite floats are separate constructors, since \<^verbatim>\<open>int()\<close> raises
  on them. A dictionary is an association list in insertion order with distinct keys.
  A string is a list of characters, each a code point below 256.
\<close>

datatype py_error =
  ValueError | OverflowError | KeyError | AttributeError | JSONDecodeError | IntCastingNaNError

datatype pyfloat = Finite real | PosInf | NegInf | FloatNaN

datatype json =
  JNull
  | JBool bool
  | JInt int
  | JFloat pyfloat
  | JStr string
  | JList "json list"
  | JObj "(string \<times> json) list"

text \<open>Truthiness, as \<^verbatim>\<open>if x:\<close>, \<^verbatim>\<open>not x\<close> and \<^verbatim>\<open>x or y\<close> read it.\<close>

fun truthy :: "json \<Rightarrow> bool" where
  "truthy JNull = False"
| "truthy (JBool b) = b"
| "truthy (JInt i) = (i \<noteq> 0)"
| "truthy (JFloat f) = (f \<noteq> Finite 0)"
| "truthy (JStr s) = (s \<noteq> [])"
| "truthy (JList xs) = (xs \<noteq> [])"
| "truthy (JObj kvs) = (kvs \<noteq> [])"

definition py_or :: "json \<Rightarrow> json \<Rightarrow> json" where
  "py_or a b = (if truthy a then a else b)"

text \<open>\<^verbatim>\<open>d.get(k)\<close>: the value stored under the key, \<^verbatim>\<open>None\<close> when the key is missing.\<close>

definition dict_get :: "(string \<times> json) list \<Rightarrow> string \<Rightarrow> json" where
  "dict_get d k = (case map_of d k of None \<Rightarrow> JNull | Some v \<Rightarrow> v)"

text \<open>
  \<^verbatim>\<open>str(x)\<close>: a string is itself; the text of any other value (a number, a list, a
  dictionary) is the parameter \<open>repr\<close>.
\<close>

definition py_str :: "(json \<Rightarrow> string) \<Rightarrow> json \<Rightarrow> string" where
  "py_str repr v = (case v of JStr s \<Rightarrow> s | _ \<Rightarrow> repr v)"

text \<open>\<^verbatim>\<open>int(x)\<close> on a float truncates toward zero and raises on a non-finite value.\<close>

definition truncate_real :: "real \<Rightarrow> int" where
  "truncate_real r = (if 0 \<le> r then \<lfloor>r\<rfloor> else - \<lfloor>- r\<rfloor>)"

fun py_int_of_float :: "pyfloat \<Rightarrow> py_error + int" where
  "py_int_of_float (Finite r) = Inr (truncate_real r)"
| "py_int_of_float PosInf = Inl OverflowError"
| "py_int_of_float NegInf = Inl OverflowError"
| "py_int_of_float FloatNaN = Inl ValueError"

subsection \<open>Strings\<close>

text \<open>
  \<^verbatim>\<open>str.strip()\<close> removes the characters of \<^verbatim>\<open>str.isspace\<close> from both ends: below 256
  these are the code points 9 to 13, 28 to 32, 133 and 160.
\<close>

definition py_isspace :: "char \<Rightarrow> bool" where
  "py_isspace c =
     (let n = (of_char c :: nat)
      in (9 \<le> n \<and> n \<le> 13) \<or> (28 \<le> n \<and> n \<le> 32) \<or> n = 133 \<or> n = 160)"

definition py_strip :: "string \<Rightarrow> string" where
  "py_strip s = rev (dropWhile py_isspace (rev (dropWhile py_isspace s)))"

text \<open>\<^verbatim>\<open>str.lower()\<close>: A to Z and the upper-case letters of Latin-1 move up by 32.\<close>

definition py_lower_char :: "char \<Rightarrow> char" where
  "py_lower_char c =
     (let n = (of_char c :: nat)
      in if (65 \<le> n \<and> n \<le> 90) \<or> (192 \<le> n \<and> n \<le> 222 \<and> n \<noteq> 215)
         then char_of (n + 32) else c)"

definition py_lower :: "string \<Rightarrow> string" where
  "py_lower s = map py_lower_char s"

text \<open>
  The three replacements of \<^verbatim>\<open>clean_code\<close>:
  \<^verbatim>\<open>s.replace("\x00", "")\<close>, \<^verbatim>\<open>s.replace("\r\n", "\n")\<close> (left to right, without
  overlap) and \<^verbatim>\<open>s.replace("\r", "\n")\<close>.
\<close>

definition remove_nul :: "string \<Rightarrow> string" where
  "remove_nul s = filter (\<lambda>c. c \<noteq> CHR 0x00) s"

fun replace_crlf :: "string \<Rightarrow> string" where
  "replace_crlf (a # b # cs) =
     (if a = CHR 0x0D \<and> b = CHR 0x0A then CHR 0x0A # replace_crlf cs
      else a # replace_crlf (b # cs))"
| "replace_crlf cs = cs"

definition replace_cr :: "string \<Rightarrow> string" where
  "replace_cr s = map (\<lambda>c. if c = CHR 0x0D then CHR 0x0A else c) s"

definition normalize_text :: "string \<Rightarrow> string" where
  "normalize_text s = py_strip (replace_cr (replace_crlf (remove_nul s)))"

section \<open>The ReposVul transformer (01\_transform\_dataset.py)\<close>

text \<open>\<^verbatim>\<open>as_list(x)\<close>: \<^verbatim>\<open>[]\<close> for \<^verbatim>\<open>None\<close>, a list as it is, anything else as a one-element list.\<close>

fun as_list :: "json \<Rightarrow> json list" where
  "as_list JNull = []"
| "as_list (JList xs) = xs"
| "as_list x = [x]"

text \<open>
  \<^verbatim>\<open>clean_code(s)\<close>: a falsy argument gives the empty string; otherwise \<^verbatim>\<open>str(s)\<close> loses
  its null characters, has its line endings normalised and is stripped.
\<close>

definition clean_code :: "(json \<Rightarrow> string) \<Rightarrow> json \<Rightarrow> string" where
  "clean_code repr s = (if \<not> truthy s then [] else normalize_text (py_str repr s))"

text \<open>
  \<^verbatim>\<open>to_int_label(x)\<close>, branch by branch: \<^verbatim>\<open>None\<close>; a boolean; an int or a float, through
  \<^verbatim>\<open>int(x)\<close>; a string, stripped and lower-cased; anything else.
\<close>

fun to_int_label :: "json \<Rightarrow> py_error + int option" where
  "to_int_label JNull = Inr None"
| "to_int_label (JBool b) = Inr (Some (if b then 1 else 0))"
| "to_int_label (JInt i) = Inr (if i = 0 \<or> i = 1 then Some i else None)"
| "to_int_label (JFloat f) =
     (case py_int_of_float f of
        Inl e \<Rightarrow> Inl e
      | Inr v \<Rightarrow> Inr (if v = 0 \<or> v = 1 then Some v else None))"
| "to_int_label (JStr x) =
     (let t = py_lower (py_strip x)
      in if t = ''0'' \<or> t = ''1'' then Inr (Some (if t = ''0'' then 0 else 1))
         else if t = ''false'' \<or> t = ''true'' then Inr (Some (if t = ''true'' then 1 else 0))
         else Inr None)"
| "to_int_label (JList xs) = Inr None"
| "to_int_label (JObj kvs) = Inr None"

text \<open>
  Label coercion in the words of the specification: a boolean gives 0 or 1, a number is
  kept only if it equals 0 or 1, a string is accepted when, trimmed and compared without
  regard to case, it equals "0", "1", "true" or "false"; everything else is unresolved.
\<close>

definition ci_equal :: "string \<Rightarrow> string \<Rightarrow> bool" where
  "ci_equal a b = (map py_lower_char a = map py_lower_char b)"

fun spec_label :: "json \<Rightarrow> int option" where
  "spec_label (JBool b) = Some (if b then 1 else 0)"
| "spec_label (JInt i) = (if i = 0 \<or> i = 1 then Some i else None)"
| "spec_label (JFloat (Finite r)) = (if r = 0 then Some 0 else if r = 1 then Some 1 else None)"
| "spec_label (JStr s) =
     (let t = py_strip s
      in if ci_equal t ''0'' then Some 0
         else if ci_equal t ''1'' then Some 1
         else if ci_equal t ''true'' then Some 1
         else if ci_equal t ''false'' then Some 0
         else None)"
| "spec_label _ = None"

fun is_float :: "json \<Rightarrow> bool" where
  "is_float (JFloat f) = True"
| "is_float _ = False"

subsection \<open>The code and label extractor\<close>

text \<open>
  The two local helpers of \<^verbatim>\<open>extract_code_and_label\<close>. A chain \<^verbatim>\<open>a or b or c or ""\<close> is
  the first truthy value, read from the left. Only \<^verbatim>\<open>to_int_label\<close> can raise.
\<close>

fun get_fb_code_and_label :: "(json \<Rightarrow> string) \<Rightarrow> json \<Rightarrow> py_error + (string \<times> int option)" where
  "get_fb_code_and_label repr (JObj x) =
     (let code = clean_code repr
            (py_or (py_or (py_or (dict_get x ''function'') (dict_get x ''code_before''))
               (dict_get x ''code'')) (JStr []))
      in case to_int_label (dict_get x ''target'') of
           Inl e \<Rightarrow> Inl e
         | Inr lab \<Rightarrow> Inr (code, lab))"
| "get_fb_code_and_label repr (JStr x) = Inr (clean_code repr (JStr x), None)"
| "get_fb_code_and_label repr x = Inr ([], None)"

fun get_fa_code :: "(json \<Rightarrow> string) \<Rightarrow> json \<Rightarrow> string" where
  "get_fa_code repr (JObj x) =
     clean_code repr (py_or (py_or (dict_get x ''function'') (dict_get x ''code'')) (JStr []))"
| "get_fa_code repr (JStr x) = clean_code repr (JStr x)"
| "get_fa_code repr x = []"

text \<open>
  \<^verbatim>\<open>extract_code_and_label(detail)\<close>, statement by statement: the before-code and label
  of the first \<^verbatim>\<open>function_before\<close> item, the fallback code, the fallback label, the
  after-code of the first \<^verbatim>\<open>function_after\<close> item, the patch, and last the before-code.
\<close>

definition extract_code_and_label ::
  "(json \<Rightarrow> string) \<Rightarrow> (string \<times> json) list \<Rightarrow> py_error + (string \<times> int option \<times> string)" where
  "extract_code_and_label repr detail =
     (let fb = dict_get detail ''function_before'';
          fa = dict_get detail ''function_after''
      in case (case as_list fb of
                 [] \<Rightarrow> Inr ([], None)
               | x # rest \<Rightarrow> get_fb_code_and_label repr x) of
           Inl e \<Rightarrow> Inl e
         | Inr (code0, label0) \<Rightarrow>
             (let before_code =
                    (if code0 = []
                     then clean_code repr
                            (py_or (py_or (dict_get detail ''code_before'') (dict_get detail ''code''))
                               (JStr []))
                     else code0)
              in case (if label0 = None then to_int_label (dict_get detail ''target'')
                       else Inr label0) of
                   Inl e \<Rightarrow> Inl e
                 | Inr label \<Rightarrow>
                     (let after0 = (case as_list fa of [] \<Rightarrow> [] | x # rest \<Rightarrow> get_fa_code repr x);
                          after1 = (if after0 = []
                                    then clean_code repr (py_or (dict_get detail ''patch'') (JStr []))
                                    else after0);
                          after_code = (if after1 = [] then before_code else after1)
                      in Inr (before_code, label, after_code))))"








subsection \<open>Reading the input and building rows\<close>

text \<open>
  A line of the input file as \<^verbatim>\<open>read_jsonl\<close> sees it: empty once stripped, text on which
  \<^verbatim>\<open>json.loads\<close> raises \<^verbatim>\<open>JSONDecodeError\<close>, or text that it parses to a value.
  \<^verbatim>\<open>read_jsonl\<close> is a generator: it yields the parsed values in order and has no handler, so
  the first malformed line ends the stream with the exception.
\<close>

datatype jline = Blank | Malformed | Parsed json

fun read_jsonl :: "jline list \<Rightarrow> (py_error + json) list" where
  "read_jsonl [] = []"
| "read_jsonl (Blank # ls) = read_jsonl ls"
| "read_jsonl (Malformed # ls) = [Inl JSONDecodeError]"
| "read_jsonl (Parsed v # ls) = Inr v # read_jsonl ls"

text \<open>The counters of \<^verbatim>\<open>stats\<close> and an output row, a dictionary in insertion order.\<close>

record stats =
  skip_no_details :: nat
  skip_detail_not_dict :: nat
  skip_no_code :: nat
  skip_no_label :: nat
  kept :: nat

type_synonym row = "(string \<times> json) list"

text \<open>\<^verbatim>\<open>x.strip()\<close> on a value that need not be a string.\<close>

fun strip_value :: "json \<Rightarrow> py_error + string" where
  "strip_value (JStr s) = Inr (py_strip s)"
| "strip_value v = Inl AttributeError"

text \<open>
  The body of the inner loop of \<^verbatim>\<open>iter_rows\<close> for one detail \<open>d\<close> of the object \<open>obj\<close>:
  the row it yields, if any, and the counters after it. The debug printing changes no
  value and is left out; the language filter is commented out in the source.
\<close>

definition detail_step ::
  "(json \<Rightarrow> string) \<Rightarrow> (string \<times> json) list \<Rightarrow> stats \<Rightarrow> json \<Rightarrow> py_error + (row option \<times> stats)" where
  "detail_step repr obj st d =
     (case d of
        JObj dd \<Rightarrow>
          (case strip_value (py_or (py_or (dict_get dd ''file_language'') (dict_get obj ''cve_language''))
                  (JStr [])) of
             Inl e \<Rightarrow> Inl e
           | Inr file_lang \<Rightarrow>
               (case extract_code_and_label repr dd of
                  Inl e \<Rightarrow> Inl e
                | Inr (before_code, label, after_code) \<Rightarrow>
                    if before_code = [] then Inr (None, st\<lparr>skip_no_code := skip_no_code st + 1\<rparr>)
                    else (case label of
                            None \<Rightarrow> Inr (None, st\<lparr>skip_no_label := skip_no_label st + 1\<rparr>)
                          | Some l \<Rightarrow>
                              Inr (Some
                                [(''processed_func'', JStr before_code),
                                 (''target'', JInt l),
                                 (''vul_func_with_fix'', JStr after_code),
                                 (''cve_id'', py_or (dict_get obj ''cve_id'') (JStr [])),
                                 (''cwe_id'', py_or (dict_get obj ''cwe_id'') (JStr [])),
                                 (''commit_id'', py_or (dict_get obj ''commit_id'') (JStr [])),
                                 (''file_path'', py_or (dict_get dd ''file_path'') (JStr [])),
                                 (''file_language'', JStr file_lang)],
                                st\<lparr>kept := kept st + 1\<rparr>))))
      | other \<Rightarrow> Inr (None, st\<lparr>skip_detail_not_dict := skip_detail_not_dict st + 1\<rparr>))"

fun iter_details ::
  "(json \<Rightarrow> string) \<Rightarrow> (string \<times> json) list \<Rightarrow> stats \<Rightarrow> json list \<Rightarrow> py_error + (row list \<times> stats)" where
  "iter_details repr obj st [] = Inr ([], st)"
| "iter_details repr obj st (d # ds) =
     (case detail_step repr obj st d of
        Inl e \<Rightarrow> Inl e
      | Inr (r, st') \<Rightarrow>
          (case iter_details repr obj st' ds of
             Inl e \<Rightarrow> Inl e
           | Inr (rs, st'') \<Rightarrow> Inr ((case r of None \<Rightarrow> rs | Some x \<Rightarrow> x # rs), st'')))"

text \<open>
  The outer loop over the stream of \<^verbatim>\<open>read_jsonl\<close>. \<^verbatim>\<open>obj.get\<close> exists only on a
  dictionary. The result is the rows yielded and the final counters, or the exception that
  ended the run.
\<close>

fun iter_objects ::
  "(json \<Rightarrow> string) \<Rightarrow> stats \<Rightarrow> (py_error + json) list \<Rightarrow> py_error + (row list \<times> stats)" where
  "iter_objects repr st [] = Inr ([], st)"
| "iter_objects repr st (Inl e # later) = Inl e"
| "iter_objects repr st (Inr (JObj obj) # later) =
     (let details = dict_get obj ''details''
      in if details = JNull
         then iter_objects repr (st\<lparr>skip_no_details := skip_no_details st + 1\<rparr>) later
         else (case iter_details repr obj st (as_list details) of
                 Inl e \<Rightarrow> Inl e
               | Inr (rs, st') \<Rightarrow>
                   (case iter_objects repr st' later of
                      Inl e \<Rightarrow> Inl e
                    | Inr (rs', st'') \<Rightarrow> Inr (rs @ rs', st''))))"
| "iter_objects repr st (Inr other # later) = Inl AttributeError"

definition iter_rows :: "(json \<Rightarrow> string) \<Rightarrow> jline list \<Rightarrow> stats \<Rightarrow> py_error + (row list \<times> stats)" where
  "iter_rows repr jsonl st = iter_objects repr st (read_jsonl jsonl)"

subsection \<open>The stratified splitter\<close>

text \<open>
  \<^verbatim>\<open>r["target"] == k\<close>: the subscript raises \<^verbatim>\<open>KeyError\<close> on a row without the key;
  the comparison is Python's, under which \<^verbatim>\<open>True == 1\<close> and \<^verbatim>\<open>1.0 == 1\<close>.
\<close>

fun py_eq_int :: "json \<Rightarrow> int \<Rightarrow> bool" where
  "py_eq_int (JInt i) k = (i = k)"
| "py_eq_int (JBool b) k = ((if b then 1 else 0) = k)"
| "py_eq_int (JFloat (Finite r)) k = (r = of_int k)"
| "py_eq_int v k = False"

fun select_target :: "int \<Rightarrow> row list \<Rightarrow> py_error + row list" where
  "select_target k [] = Inr []"
| "select_target k (r # rs) =
     (case map_of r ''target'' of
        None \<Rightarrow> Inl KeyError
      | Some v \<Rightarrow>
          (case select_target k rs of
             Inl e \<Rightarrow> Inl e
           | Inr ys \<Rightarrow> Inr (if py_eq_int v k then r # ys else ys)))"

text \<open>
  Python slices \<^verbatim>\<open>b[:i]\<close>, \<^verbatim>\<open>b[i:j]\<close> and \<^verbatim>\<open>b[j:]\<close>: a negative bound counts from the end,
  and every bound is clamped to the list.
\<close>

definition slice_bound :: "nat \<Rightarrow> int \<Rightarrow> nat" where
  "slice_bound n i = (if i < 0 then nat (max 0 (int n + i)) else min n (nat i))"

definition slice_to :: "'a list \<Rightarrow> int \<Rightarrow> 'a list" where
  "slice_to b i = take (slice_bound (length b) i) b"

definition slice_between :: "'a list \<Rightarrow> int \<Rightarrow> int \<Rightarrow> 'a list" where
  "slice_between b i j = drop (slice_bound (length b) i) (take (slice_bound (length b) j) b)"

definition slice_from :: "'a list \<Rightarrow> int \<Rightarrow> 'a list" where
  "slice_from b j = drop (slice_bound (length b) j) b"

text \<open>
  \<^verbatim>\<open>split_bucket(b)\<close>. A ratio is a float, given as the real number it denotes. The
  product \<^verbatim>\<open>n * ratios[k]\<close> is a product of floats, which the machine rounds to the nearest
  float: it is the parameter \<open>fmul\<close>, the rounded product of a length and a ratio, and is
  not the exact product. \<^verbatim>\<open>int\<close> truncates it toward zero.
\<close>

definition split_bucket ::
  "(nat \<Rightarrow> real \<Rightarrow> real) \<Rightarrow> real \<times> real \<times> real \<Rightarrow> 'a list \<Rightarrow> 'a list \<times> 'a list \<times> 'a list" where
  "split_bucket fmul ratios b =
     (let n = length b;
          n_tr = truncate_real (fmul n (fst ratios));
          n_va = truncate_real (fmul n (fst (snd ratios)))
      in (slice_to b n_tr, slice_between b n_tr (n_tr + n_va), slice_from b (n_tr + n_va)))"

text \<open>
  \<^verbatim>\<open>stratified_split(rows, seed, ratios)\<close>. The module-level generator of \<^verbatim>\<open>random\<close> is
  state: the function takes the state it finds and returns the one it leaves.
  \<^verbatim>\<open>random.seed\<close> and \<^verbatim>\<open>random.shuffle\<close> belong to the standard library and are the
  parameters \<open>seed_rng\<close> (the state a seed gives) and \<open>shuffle\<close> (the shuffled list and the
  next state). The five shuffles run in the order of the source.
\<close>

definition stratified_split ::
  "(int \<Rightarrow> 'g) \<Rightarrow> ('g \<Rightarrow> row list \<Rightarrow> row list \<times> 'g) \<Rightarrow> (nat \<Rightarrow> real \<Rightarrow> real) \<Rightarrow> 'g \<Rightarrow> row list
     \<Rightarrow> int \<Rightarrow> real \<times> real \<times> real
     \<Rightarrow> (py_error + (row list \<times> row list \<times> row list)) \<times> 'g" where
  "stratified_split seed_rng shuffle fmul g rows seed ratios =
     (let g0 = seed_rng seed
      in case select_target 1 rows of
           Inl e \<Rightarrow> (Inl e, g0)
         | Inr pos \<Rightarrow>
             (case select_target 0 rows of
                Inl e \<Rightarrow> (Inl e, g0)
              | Inr neg \<Rightarrow>
                  (let (pos', g1) = shuffle g0 pos;
                       (neg', g2) = shuffle g1 neg;
                       (p_tr, p_va, p_te) = split_bucket fmul ratios pos';
                       (n_tr, n_va, n_te) = split_bucket fmul ratios neg';
                       (train, g3) = shuffle g2 (p_tr @ n_tr);
                       (val, g4) = shuffle g3 (p_va @ n_va);
                       (test, g5) = shuffle g4 (p_te @ n_te)
                   in (Inr (train, val, test), g5))))"

text \<open>
  What is used of the two library parameters: a shuffle returns a permutation of its
  argument, and the rounded product of a length and a non-negative float is not negative.
\<close>

definition nonneg_product :: "(nat \<Rightarrow> real \<Rightarrow> real) \<Rightarrow> bool" where
  "nonneg_product fmul = (\<forall>n r. 0 \<le> r \<longrightarrow> 0 \<le> fmul n r)"

text \<open>A canonical row carries the label 0 or 1.\<close>

definition canonical_target :: "row \<Rightarrow> bool" where
  "canonical_target r = (map_of r ''target'' = Some (JInt 0) \<or> map_of r ''target'' = Some (JInt 1))"

definition is_permuting :: "('g \<Rightarrow> row list \<Rightarrow> row list \<times> 'g) \<Rightarrow> bool" where
  "is_permuting shuffle = (\<forall>g xs. mset (fst (shuffle g xs)) = mset xs)"

section \<open>The PrimeVul transformer (02\_transform\_dataset.py)\<close>

text \<open>\<^verbatim>\<open>needle in hay\<close> on strings.\<close>

fun py_in :: "string \<Rightarrow> string \<Rightarrow> bool" where
  "py_in needle [] = (needle = [])"
| "py_in needle (c # cs) = (take (length needle) (c # cs) = needle \<or> py_in needle cs)"

definition cpp_markers :: "string list" where
  "cpp_markers =
     [''::'', ''template<'', ''std::'', ''using namespace'', ''new '', ''delete '', ''noexcept'',
      ''nullptr'', ''friend '', ''virtual '', ''public:'', ''private:'', ''protected:'',
      ''constexpr'', ''decltype'', ''typename'', ''explicit'', ''mutable'', ''static_cast<'',
      ''dynamic_cast<'', ''reinterpret_cast<'', ''const_cast<'']"

definition looks_like_cpp :: "string \<Rightarrow> bool" where
  "looks_like_cpp func = (let lower = py_lower func in list_ex (\<lambda>marker. py_in marker lower) cpp_markers)"

text \<open>\<^verbatim>\<open>d.get(k, default)\<close>.\<close>

definition dict_get_default :: "(string \<times> json) list \<Rightarrow> string \<Rightarrow> json \<Rightarrow> json" where
  "dict_get_default d k v = (case map_of d k of None \<Rightarrow> v | Some x \<Rightarrow> x)"

text \<open>
  \<^verbatim>\<open>is_c_function(sample)\<close> on a dictionary. (On any other value \<^verbatim>\<open>sample.get\<close> raises
  \<^verbatim>\<open>AttributeError\<close>: the loop below has that branch.)
\<close>

definition is_c_function :: "(string \<times> json) list \<Rightarrow> bool" where
  "is_c_function sample =
     (case dict_get_default sample ''func'' (JStr []) of
        JStr func \<Rightarrow>
          (if func = [] then False
           else if looks_like_cpp func then False
           else if \<not> py_in ''('' func \<or> \<not> py_in '')'' func \<or> \<not> py_in ''{'' func \<or> \<not> py_in ''}'' func
                then False
           else True)
      | other \<Rightarrow> False)"

text \<open>
  The loop of \<^verbatim>\<open>extract_c_functions\<close>: its state is the three counters and the rows
  written so far (after the header). \<^verbatim>\<open>json.dumps\<close> is the parameter \<open>dumps\<close>.
  The \<^verbatim>\<open>try\<close> around \<^verbatim>\<open>json.loads\<close> catches \<^verbatim>\<open>JSONDecodeError\<close> and moves on to the
  next line.
\<close>

record extraction =
  total :: nat
  kept_rows :: nat
  row_index :: nat
  written :: "json list list"

definition csv_row :: "(json \<Rightarrow> string) \<Rightarrow> nat \<Rightarrow> (string \<times> json) list \<Rightarrow> json list" where
  "csv_row dumps idx sample =
     [JInt (int idx),
      dict_get_default sample ''func'' (JStr []),
      dict_get sample ''target'',
      JStr ''-'',
      dict_get_default sample ''cve'' (JStr []),
      (let cwe_value = dict_get sample ''cwe''
       in if cwe_value = JNull then JStr [] else JStr (dumps cwe_value)),
      dict_get_default sample ''commit_id'' (JStr []),
      dict_get_default sample ''file_name'' (JStr []),
      JStr ''c'',
      JStr (dumps (JList [])),
      JStr []]"

fun extract_loop :: "(json \<Rightarrow> string) \<Rightarrow> extraction \<Rightarrow> jline list \<Rightarrow> py_error + extraction" where
  "extract_loop dumps st [] = Inr st"
| "extract_loop dumps st (Blank # ls) = extract_loop dumps st ls"
| "extract_loop dumps st (Malformed # ls) = extract_loop dumps (st\<lparr>total := total st + 1\<rparr>) ls"
| "extract_loop dumps st (Parsed (JObj sample) # ls) =
     (if \<not> is_c_function sample then extract_loop dumps (st\<lparr>total := total st + 1\<rparr>) ls
      else extract_loop dumps
             \<lparr>total = total st + 1,
              kept_rows = kept_rows st + 1,
              row_index = row_index st + 1,
              written = written st @ [csv_row dumps (row_index st) sample]\<rparr> ls)"
| "extract_loop dumps st (Parsed other # ls) = Inl AttributeError"

definition extract_c_functions :: "(json \<Rightarrow> string) \<Rightarrow> jline list \<Rightarrow> py_error + extraction" where
  "extract_c_functions dumps jsonl =
     extract_loop dumps \<lparr>total = 0, kept_rows = 0, row_index = 0, written = []\<rparr> jsonl"

text \<open>The run summary the script prints: lines read and functions written.\<close>

definition summary :: "py_error + extraction \<Rightarrow> py_error + (nat \<times> nat)" where
  "summary res = (case res of Inl e \<Rightarrow> Inl e | Inr st \<Rightarrow> Inr (total st, kept_rows st))"

section \<open>The augmentation script (03\_augment\_with\_llm.py)\<close>

subsection \<open>Tables\<close>

text \<open>
  A pandas DataFrame is a list of column names and a list of rows; a row is an association
  list from column name to cell, and a column a row does not mention reads as missing
  (\<^verbatim>\<open>NaN\<close>). A cell is missing, an integer or a string; numeric cells are integers, taken
  exactly (no rounding through \<^verbatim>\<open>float64\<close>, no overflow of \<^verbatim>\<open>int64\<close>).
\<close>

datatype cell = NaN | IntV int | StrV string

type_synonym frow = "(string \<times> cell) list"

record frame =
  columns :: "string list"
  records :: "frow list"

definition cell_of :: "frow \<Rightarrow> string \<Rightarrow> cell" where
  "cell_of r c = (case map_of r c of None \<Rightarrow> NaN | Some v \<Rightarrow> v)"

text \<open>\<^verbatim>\<open>df[c] = v\<close> with a scalar: every row gets the value; a new column is appended.\<close>

definition assign_scalar :: "string \<Rightarrow> cell \<Rightarrow> frame \<Rightarrow> frame" where
  "assign_scalar c v df =
     \<lparr>columns = (if c \<in> set (columns df) then columns df else columns df @ [c]),
      records = map (AList.update c v) (records df)\<rparr>"

text \<open>\<^verbatim>\<open>df[c] = df[c].map(f)\<close>: the column is rewritten cell by cell.\<close>

definition update_cell :: "string \<Rightarrow> (cell \<Rightarrow> cell) \<Rightarrow> frow \<Rightarrow> frow" where
  "update_cell c f r = AList.update c (f (cell_of r c)) r"

definition map_column :: "string \<Rightarrow> (cell \<Rightarrow> cell) \<Rightarrow> frame \<Rightarrow> frame" where
  "map_column c f df = df\<lparr>records := map (update_cell c f) (records df)\<rparr>"

text \<open>\<^verbatim>\<open>df[cols]\<close>: the listed columns, in the listed order.\<close>

definition select_columns :: "string list \<Rightarrow> frame \<Rightarrow> frame" where
  "select_columns cols df =
     \<lparr>columns = cols, records = map (\<lambda>r. map (\<lambda>c. (c, cell_of r c)) cols) (records df)\<rparr>"

text \<open>A loop that raises at the first failing element.\<close>

fun map_err :: "('a \<Rightarrow> py_error + 'b) \<Rightarrow> 'a list \<Rightarrow> py_error + 'b list" where
  "map_err f [] = Inr []"
| "map_err f (x # xs) =
     (case f x of
        Inl e \<Rightarrow> Inl e
      | Inr y \<Rightarrow> (case map_err f xs of Inl e \<Rightarrow> Inl e | Inr ys \<Rightarrow> Inr (y # ys)))"

subsection \<open>Cell conversions\<close>

text \<open>\<^verbatim>\<open>str(i)\<close> of an integer, in decimal.\<close>

fun nat_str :: "nat \<Rightarrow> string" where
  "nat_str n = (if n < 10 then [char_of (48 + n)] else nat_str (n div 10) @ [char_of (48 + n mod 10)])"

definition int_str :: "int \<Rightarrow> string" where
  "int_str i = (if i < 0 then CHR ''-'' # nat_str (nat (- i)) else nat_str (nat i))"

text \<open>
  \<^verbatim>\<open>series.astype(str)\<close> applies \<^verbatim>\<open>str\<close> to every cell: a string stays, an integer is
  printed, and a missing value becomes the string \<^verbatim>\<open>nan\<close>, so that the \<^verbatim>\<open>fillna\<close> after
  it finds nothing to fill.
\<close>

fun astype_str :: "cell \<Rightarrow> cell" where
  "astype_str (StrV s) = StrV s"
| "astype_str (IntV i) = StrV (int_str i)"
| "astype_str NaN = StrV ''nan''"

fun fillna :: "cell \<Rightarrow> cell \<Rightarrow> cell" where
  "fillna d NaN = d"
| "fillna d v = v"

text \<open>
  \<^verbatim>\<open>clean_code(s)\<close> of this script, mapped over a column of strings: \<^verbatim>\<open>None\<close> gives the
  empty string, a string is normalised as in the transformer.
\<close>

fun clean_code_cell :: "cell \<Rightarrow> cell" where
  "clean_code_cell (StrV s) = StrV (normalize_text s)"
| "clean_code_cell v = StrV (normalize_text (case astype_str v of StrV s \<Rightarrow> s | _ \<Rightarrow> []))"

text \<open>
  \<^verbatim>\<open>pd.to_numeric(x, errors="coerce").fillna(0).astype(int)\<close>, cell by cell. What
  \<^verbatim>\<open>to_numeric\<close> reads in a string is the parameter \<open>num\<close>: nothing (coerced to missing,
  then filled with 0), a finite number (given truncated, as \<^verbatim>\<open>astype(int)\<close> leaves it)
  or an infinity, on which \<^verbatim>\<open>astype(int)\<close> raises.
\<close>

datatype numeric = NotNumeric | Number int | NonFinite

fun target_cell :: "(string \<Rightarrow> numeric) \<Rightarrow> cell \<Rightarrow> py_error + cell" where
  "target_cell num NaN = Inr (IntV 0)"
| "target_cell num (IntV i) = Inr (IntV i)"
| "target_cell num (StrV s) =
     (case num s of
        NotNumeric \<Rightarrow> Inr (IntV 0)
      | Number i \<Rightarrow> Inr (IntV i)
      | NonFinite \<Rightarrow> Inl IntCastingNaNError)"

subsection \<open>The schema normalizer\<close>

definition required_cols :: "string list" where
  "required_cols =
     [''processed_func'', ''target'', ''vul_func_with_fix'', ''cve_id'', ''cwe_id'', ''commit_id'',
      ''file_path'', ''file_language'', ''flaw_line_index'', ''flaw_line'']"

text \<open>The body of the first loop of \<^verbatim>\<open>ensure_reposvul_schema\<close>, for one column.\<close>

definition missing_default :: "string \<Rightarrow> cell" where
  "missing_default c =
     (if c = ''flaw_line_index'' then StrV ''[]''
      else if c = ''flaw_line'' then StrV ''''
      else StrV ''-'')"

definition add_missing :: "string \<Rightarrow> frame \<Rightarrow> frame" where
  "add_missing c df = (if c \<notin> set (columns df) then assign_scalar c (missing_default c) df else df)"

text \<open>The line that normalizes the column \<^verbatim>\<open>target\<close>: it raises if a cell does.\<close>

definition convert_target :: "(string \<Rightarrow> numeric) \<Rightarrow> frame \<Rightarrow> py_error + frame" where
  "convert_target num df =
     (case map_err (\<lambda>r. case target_cell num (cell_of r ''target'') of
                          Inl e \<Rightarrow> Inl e
                        | Inr v \<Rightarrow> Inr (AList.update ''target'' v r)) (records df) of
        Inl e \<Rightarrow> Inl e
      | Inr rs \<Rightarrow> Inr (df\<lparr>records := rs\<rparr>))"

text \<open>The lines of the form \<^verbatim>\<open>df[c] = df[c].astype(str).fillna(d)\<close>.\<close>

definition text_cell :: "string \<Rightarrow> cell \<Rightarrow> cell" where
  "text_cell d v = fillna (StrV d) (astype_str v)"

definition text_column :: "string \<Rightarrow> string \<Rightarrow> frame \<Rightarrow> frame" where
  "text_column c d df = map_column c (text_cell d) df"

text \<open>
  \<^verbatim>\<open>ensure_reposvul_schema(df)\<close>: the loop that adds the missing columns, the ten lines
  that normalize the columns, in the order of the source, and the selection of the
  required columns.
\<close>

definition ensure_reposvul_schema :: "(string \<Rightarrow> numeric) \<Rightarrow> frame \<Rightarrow> py_error + frame" where
  "ensure_reposvul_schema num df =
     (let df1 = fold add_missing required_cols df;
          df2 = map_column ''processed_func'' (\<lambda>v. clean_code_cell (astype_str v)) df1
      in case convert_target num df2 of
           Inl e \<Rightarrow> Inl e
         | Inr df3 \<Rightarrow>
             Inr (select_columns required_cols
               (text_column ''flaw_line'' ''''
               (text_column ''flaw_line_index'' ''[]''
               (text_column ''file_language'' ''C''
               (text_column ''file_path'' ''-''
               (text_column ''commit_id'' ''-''
               (text_column ''cwe_id'' ''['-']''
               (text_column ''cve_id'' ''-''
               (text_column ''vul_func_with_fix'' ''-'' df3))))))))))"

text \<open>
  What the normalizer makes of one row of a table with the columns \<open>cols\<close>, column by
  column: the cell a required column starts from, and the row of converted cells.
\<close>

definition start_cell :: "string list \<Rightarrow> frow \<Rightarrow> string \<Rightarrow> cell" where
  "start_cell cols r c = (if c \<in> set cols then cell_of r c else missing_default c)"

definition normalize_row :: "(string \<Rightarrow> numeric) \<Rightarrow> string list \<Rightarrow> frow \<Rightarrow> py_error + frow" where
  "normalize_row num cols r =
     (case target_cell num (start_cell cols r ''target'') of
        Inl e \<Rightarrow> Inl e
      | Inr t \<Rightarrow>
          Inr [(''processed_func'', clean_code_cell (astype_str (start_cell cols r ''processed_func''))),
               (''target'', t),
               (''vul_func_with_fix'', text_cell ''-'' (start_cell cols r ''vul_func_with_fix'')),
               (''cve_id'', text_cell ''-'' (start_cell cols r ''cve_id'')),
               (''cwe_id'', text_cell ''['-']'' (start_cell cols r ''cwe_id'')),
               (''commit_id'', text_cell ''-'' (start_cell cols r ''commit_id'')),
               (''file_path'', text_cell ''-'' (start_cell cols r ''file_path'')),
               (''file_language'', text_cell ''C'' (start_cell cols r ''file_language'')),
               (''flaw_line_index'', text_cell ''[]'' (start_cell cols r ''flaw_line_index'')),
               (''flaw_line'', text_cell '''' (start_cell cols r ''flaw_line''))])"

subsection \<open>Fingerprints, deduplication and overlap removal\<close>

text \<open>
  \<^verbatim>\<open>stable_hash(text)\<close>: the hexadecimal SHA-256 digest of the UTF-8 encoding of the
  text. Encoding and digest belong to the standard library and are the parameter \<open>sha\<close>.
\<close>

definition stable_hash :: "(string \<Rightarrow> string) \<Rightarrow> string \<Rightarrow> string" where
  "stable_hash sha text = sha text"

text \<open>
  \<^verbatim>\<open>tmp["_h"] = tmp["processed_func"].map(stable_hash)\<close>: \<^verbatim>\<open>KeyError\<close> without the
  column, \<^verbatim>\<open>AttributeError\<close> on a cell that is not a string (it has no \<^verbatim>\<open>encode\<close>).
\<close>

definition hash_cell :: "(string \<Rightarrow> string) \<Rightarrow> frow \<Rightarrow> py_error + cell" where
  "hash_cell sha r =
     (case cell_of r ''processed_func'' of
        StrV s \<Rightarrow> Inr (StrV (stable_hash sha s))
      | other \<Rightarrow> Inl AttributeError)"

definition add_hash_column :: "(string \<Rightarrow> string) \<Rightarrow> frame \<Rightarrow> py_error + frame" where
  "add_hash_column sha df =
     (if ''processed_func'' \<notin> set (columns df) then Inl KeyError
      else case map_err (\<lambda>r. case hash_cell sha r of
                               Inl e \<Rightarrow> Inl e
                             | Inr h \<Rightarrow> Inr (AList.update ''_h'' h r)) (records df) of
             Inl e \<Rightarrow> Inl e
           | Inr rs \<Rightarrow>
               Inr \<lparr>columns = (if ''_h'' \<in> set (columns df) then columns df else columns df @ [''_h'']),
                    records = rs\<rparr>)"

text \<open>
  \<^verbatim>\<open>df.drop_duplicates(subset=[c])\<close> keeps, in order, every row whose cell in the column
  has not been seen in an earlier row.
\<close>

fun keep_first :: "('a \<Rightarrow> 'k) \<Rightarrow> 'k list \<Rightarrow> 'a list \<Rightarrow> 'a list" where
  "keep_first key seen [] = []"
| "keep_first key seen (r # rs) =
     (if key r \<in> set seen then keep_first key seen rs
      else r # keep_first key (key r # seen) rs)"

definition drop_duplicates :: "string \<Rightarrow> frame \<Rightarrow> frame" where
  "drop_duplicates c df = df\<lparr>records := keep_first (\<lambda>r. cell_of r c) [] (records df)\<rparr>"

text \<open>\<^verbatim>\<open>df.drop(columns=[c])\<close>.\<close>

definition drop_column :: "string \<Rightarrow> frame \<Rightarrow> frame" where
  "drop_column c df = \<lparr>columns = filter (\<lambda>k. k \<noteq> c) (columns df), records = map (AList.delete c) (records df)\<rparr>"

definition deduplicate_by_code :: "(string \<Rightarrow> string) \<Rightarrow> frame \<Rightarrow> py_error + frame" where
  "deduplicate_by_code sha df =
     (case add_hash_column sha df of
        Inl e \<Rightarrow> Inl e
      | Inr tmp \<Rightarrow> Inr (drop_column ''_h'' (drop_duplicates ''_h'' tmp)))"

text \<open>The content fingerprint of a row: the digest of its code cell.\<close>

definition fingerprint :: "(string \<Rightarrow> string) \<Rightarrow> frow \<Rightarrow> cell" where
  "fingerprint sha r = (case cell_of r ''processed_func'' of StrV s \<Rightarrow> StrV (stable_hash sha s) | other \<Rightarrow> NaN)"

text \<open>A pool of rows with string code and no column named \<^verbatim>\<open>_h\<close>.\<close>

fun is_str :: "cell \<Rightarrow> bool" where
  "is_str (StrV s) = True"
| "is_str v = False"

definition code_pool :: "frame \<Rightarrow> bool" where
  "code_pool df =
     (''processed_func'' \<in> set (columns df) \<and> ''_h'' \<notin> set (columns df) \<and>
      list_all (\<lambda>r. ''_h'' \<notin> fst ` set r \<and> is_str (cell_of r ''processed_func'')) (records df))"

text \<open>The positions of the first occurrences in a list of keys, in increasing order.\<close>

definition first_occurrences :: "'k list \<Rightarrow> nat list" where
  "first_occurrences ks = filter (\<lambda>i. list_all (\<lambda>j. ks ! j \<noteq> ks ! i) [0..<i]) [0..<length ks]"

subsection \<open>The merge and the final clean-up\<close>

text \<open>
  \<^verbatim>\<open>pd.concat([a, b], ignore_index=True)\<close>: the columns of \<open>a\<close>, then those only \<open>b\<close> has;
  the rows of \<open>a\<close>, then the rows of \<open>b\<close>, each laid out on these columns.
\<close>

definition concat_frames :: "frame \<Rightarrow> frame \<Rightarrow> frame" where
  "concat_frames a b =
     (let cols = columns a @ filter (\<lambda>c. c \<notin> set (columns a)) (columns b)
      in \<lparr>columns = cols, records = map (\<lambda>r. map (\<lambda>c. (c, cell_of r c)) cols) (records a @ records b)\<rparr>)"

text \<open>
  \<^verbatim>\<open>df[df["processed_func"].str.len() > 0]\<close>: \<^verbatim>\<open>KeyError\<close> without the column; a row is
  kept when its code is a string of positive length (on a cell that is not a string the
  length is missing, and the comparison false).
\<close>

definition has_code :: "frow \<Rightarrow> bool" where
  "has_code r = (case cell_of r ''processed_func'' of StrV s \<Rightarrow> s \<noteq> [] | other \<Rightarrow> False)"

definition nonempty_code :: "frame \<Rightarrow> py_error + frame" where
  "nonempty_code df =
     (if ''processed_func'' \<notin> set (columns df) then Inl KeyError
      else Inr (df\<lparr>records := filter has_code (records df)\<rparr>))"

text \<open>
  \<^verbatim>\<open>add_index_column(df)\<close>: \<^verbatim>\<open>insert\<close> raises \<^verbatim>\<open>ValueError\<close> when the column exists.
\<close>

definition add_index_column :: "frame \<Rightarrow> py_error + frame" where
  "add_index_column df =
     (if ''index'' \<in> set (columns df) then Inl ValueError
      else Inr \<lparr>columns = ''index'' # columns df,
                records = map (\<lambda>(i, r). (''index'', IntV (int i)) # r) (enumerate 0 (records df))\<rparr>)"

text \<open>
  The last part of \<^verbatim>\<open>main\<close>: the merge under the chosen policy, the final clean-up of
  the three splits, then the index column of the three. A split that was not provided is
  \<^verbatim>\<open>None\<close>.
\<close>

datatype augment_split = Train_only | All_splits

definition final_cleanup :: "(string \<Rightarrow> numeric) \<Rightarrow> frame \<Rightarrow> py_error + frame" where
  "final_cleanup num df =
     (case nonempty_code df of
        Inl e \<Rightarrow> Inl e
      | Inr nonempty \<Rightarrow> ensure_reposvul_schema num nonempty)"

text \<open>\<^verbatim>\<open>if x is not None: x = f(x)\<close>, where \<open>f\<close> may raise.\<close>

definition if_provided :: "(frame \<Rightarrow> py_error + frame) \<Rightarrow> frame option \<Rightarrow> py_error + frame option" where
  "if_provided f split =
     (case split of
        None \<Rightarrow> Inr None
      | Some df \<Rightarrow> (case f df of Inl e \<Rightarrow> Inl e | Inr out \<Rightarrow> Inr (Some out)))"

definition augment ::
  "(string \<Rightarrow> numeric) \<Rightarrow> augment_split \<Rightarrow> frame \<Rightarrow> frame option \<Rightarrow> frame option \<Rightarrow> frame
     \<Rightarrow> py_error + (frame \<times> frame option \<times> frame option)" where
  "augment num policy train val test synth =
     (let train_aug = concat_frames train synth;
          val_aug = (case policy of
                       Train_only \<Rightarrow> val
                     | All_splits \<Rightarrow> map_option (\<lambda>v. concat_frames v synth) val);
          test_aug = (case policy of
                        Train_only \<Rightarrow> test
                      | All_splits \<Rightarrow> map_option (\<lambda>t. concat_frames t synth) test)
      in case final_cleanup num train_aug of
           Inl e \<Rightarrow> Inl e
         | Inr train_clean \<Rightarrow>
        (case if_provided (final_cleanup num) val_aug of
           Inl e \<Rightarrow> Inl e
         | Inr val_clean \<Rightarrow>
        (case if_provided (final_cleanup num) test_aug of
           Inl e \<Rightarrow> Inl e
         | Inr test_clean \<Rightarrow>
        (case add_index_column train_clean of
           Inl e \<Rightarrow> Inl e
         | Inr train_out \<Rightarrow>
        (case if_provided add_index_column val_clean of
           Inl e \<Rightarrow> Inl e
         | Inr val_out \<Rightarrow>
        (case if_provided add_index_column test_clean of
           Inl e \<Rightarrow> Inl e
         | Inr test_out \<Rightarrow> Inr (train_out, val_out, test_out)))))))"

text \<open>A table the normalizer leaves as it is.\<close>

definition normalized :: "(string \<Rightarrow> numeric) \<Rightarrow> frame \<Rightarrow> bool" where
  "normalized num df = (ensure_reposvul_schema num df = Inr df)"

text \<open>
  The table \<^verbatim>\<open>add_index_column\<close> makes of a clean pool: the index column, then the
  required columns, the rows numbered from 0 in their order.
\<close>

definition indexed :: "frow list \<Rightarrow> frame" where
  "indexed rs =
     \<lparr>columns = ''index'' # required_cols,
      records = map (\<lambda>(i, r). (''index'', IntV (int i)) # r) (enumerate 0 rs)\<rparr>"

text \<open>
  A row as \<^verbatim>\<open>synth_to_reposvul_rows\<close> builds it from a code text and a forced label,
  after the normalizer has added the two flaw columns.
\<close>

definition synthetic_row :: "string \<Rightarrow> int \<Rightarrow> frow" where
  "synthetic_row code label =
     [(''processed_func'', StrV code), (''target'', IntV label),
      (''vul_func_with_fix'', StrV ''-''), (''cve_id'', StrV ''-''), (''cwe_id'', StrV ''['-']''),
      (''commit_id'', StrV ''-''), (''file_path'', StrV ''-''), (''file_language'', StrV ''C''),
      (''flaw_line_index'', StrV ''[]''), (''flaw_line'', StrV [])]"

text \<open>The rows of an output table without their index cell.\<close>

definition unindexed :: "frame \<Rightarrow> frow list" where
  "unindexed df = map (AList.delete ''index'') (records df)"

section \<open>Label coercion\<close>

lemma py_lower_char_digits:
  "py_lower_char CHR ''0'' = CHR ''0''" "py_lower_char CHR ''1'' = CHR ''1''"
  by (simp_all add: py_lower_char_def)

lemma py_lower_char_letters:
  "py_lower_char CHR ''t'' = CHR ''t''" "py_lower_char CHR ''r'' = CHR ''r''"
  "py_lower_char CHR ''u'' = CHR ''u''" "py_lower_char CHR ''e'' = CHR ''e''"
  "py_lower_char CHR ''f'' = CHR ''f''" "py_lower_char CHR ''a'' = CHR ''a''"
  "py_lower_char CHR ''l'' = CHR ''l''" "py_lower_char CHR ''s'' = CHR ''s''"
  by (simp_all add: py_lower_char_def)

lemma ci_equal_words:
  "ci_equal t ''0'' = (py_lower t = ''0'')"
  "ci_equal t ''1'' = (py_lower t = ''1'')"
  "ci_equal t ''true'' = (py_lower t = ''true'')"
  "ci_equal t ''false'' = (py_lower t = ''false'')"
  by (simp_all add: ci_equal_def py_lower_def py_lower_char_digits py_lower_char_letters)

lemma to_int_label_non_float:
  "\<not> is_float x \<Longrightarrow> to_int_label x = Inr (spec_label x)"
  by (cases x) (auto simp: Let_def ci_equal_words)

text \<open>
  C3, as the code has it: on every value but a float the coercion is the specification's;
  a finite float is first truncated toward zero, and is kept exactly when the truncation
  is 0 or 1.
\<close>

theorem to_int_label_coercion:
  "(\<not> is_float x \<longrightarrow> to_int_label x = Inr (spec_label x)) \<and>
   to_int_label (JFloat (Finite r)) =
     Inr (if truncate_real r = 0 \<or> truncate_real r = 1 then Some (truncate_real r) else None)"
  using to_int_label_non_float by simp

lemma label_of_padded_TRUE:
  "to_int_label (JStr '' TRUE '') = Inr (Some 1)" "spec_label (JStr '' TRUE '') = Some 1"
  by code_simp+

theorem to_int_label_coercion_witness:
  "\<not> is_float (JStr '' TRUE '') \<and> to_int_label (JStr '' TRUE '') = Inr (Some 1) \<and>
   spec_label (JStr '' TRUE '') = Some 1 \<and>
   to_int_label (JFloat (Finite 2)) = Inr None"
proof -
  have two: "to_int_label (JFloat (Finite 2)) = Inr None"
    by (simp add: truncate_real_def)
  show ?thesis
    using to_int_label_coercion [of "JStr '' TRUE ''" 2]
    by (simp del: to_int_label.simps spec_label.simps add: label_of_padded_TRUE two)
qed

text \<open>
  The claim as written fails on a float that is neither 0 nor 1 but truncates to one of
  them: 0.5 is given the label 0 where the specification leaves it unresolved.
\<close>

theorem to_int_label_half_counterexample:
  "to_int_label (JFloat (Finite (1/2))) = Inr (Some 0) \<and> spec_label (JFloat (Finite (1/2))) = None"
  by (simp add: truncate_real_def)
section \<open>The resolution order of the extractor\<close>

















section \<open>The stratified splitter\<close>

lemma select_target_canonical:
  assumes "\<forall>r\<in>set rows. canonical_target r" and "k = 0 \<or> k = 1"
  shows "select_target k rows = Inr (filter (\<lambda>r. map_of r ''target'' = Some (JInt k)) rows)"
  using assms by (induction rows) (auto simp: canonical_target_def)

lemma canonical_partition:
  assumes "\<forall>r\<in>set rows. canonical_target r"
  shows "mset (filter (\<lambda>r. map_of r ''target'' = Some (JInt 1)) rows) +
         mset (filter (\<lambda>r. map_of r ''target'' = Some (JInt 0)) rows) = mset rows"
  using assms by (induction rows) (auto simp: canonical_target_def)

lemma slice_to_take: "0 \<le> i \<Longrightarrow> slice_to b i = take (nat i) b"
  by (simp add: slice_to_def slice_bound_def min_def)

lemma slice_from_drop: "0 \<le> i \<Longrightarrow> slice_from b i = drop (nat i) b"
  by (simp add: slice_from_def slice_bound_def min_def)

lemma slice_between_take_drop:
  "0 \<le> i \<Longrightarrow> 0 \<le> j \<Longrightarrow> slice_between b i (i + j) = take (nat j) (drop (nat i) b)"
  by (auto simp: slice_between_def slice_bound_def min_def drop_take nat_add_distrib)

lemma split_bucket_nonneg:
  assumes "0 \<le> fmul (length b) r_tr" and "0 \<le> fmul (length b) r_va"
  shows "split_bucket fmul (r_tr, r_va, r_te) b =
           (take (nat \<lfloor>fmul (length b) r_tr\<rfloor>) b,
            take (nat \<lfloor>fmul (length b) r_va\<rfloor>) (drop (nat \<lfloor>fmul (length b) r_tr\<rfloor>) b),
            drop (nat \<lfloor>fmul (length b) r_tr\<rfloor> + nat \<lfloor>fmul (length b) r_va\<rfloor>) b)"
proof -
  define p where "p = \<lfloor>fmul (length b) r_tr\<rfloor>"
  define q where "q = \<lfloor>fmul (length b) r_va\<rfloor>"
  have p: "truncate_real (fmul (length b) r_tr) = p" "0 \<le> p"
    using assms(1) by (simp_all add: truncate_real_def p_def)
  have q: "truncate_real (fmul (length b) r_va) = q" "0 \<le> q"
    using assms(2) by (simp_all add: truncate_real_def q_def)
  have pq: "0 \<le> p + q" using p q by simp
  have "split_bucket fmul (r_tr, r_va, r_te) b =
          (slice_to b p, slice_between b p (p + q), slice_from b (p + q))"
    by (simp add: split_bucket_def Let_def p q)
  also have "\<dots> = (take (nat p) b, take (nat q) (drop (nat p) b), drop (nat p + nat q) b)"
    using p(2) q(2) pq
    by (simp add: slice_to_take slice_from_drop slice_between_take_drop nat_add_distrib)
  finally show ?thesis by (simp add: p_def q_def)
qed

lemma three_slices: "mset (take p b) + mset (take q (drop p b)) + mset (drop (p + q) b) = mset b"
proof -
  have "take q (drop p b) @ drop (p + q) b = drop p b"
    using append_take_drop_id [of q "drop p b"] by (simp add: add.commute)
  then have "take p b @ take q (drop p b) @ drop (p + q) b = b" by simp
  then have "mset (take p b @ take q (drop p b) @ drop (p + q) b) = mset b" by simp
  then show ?thesis by (simp add: add.assoc)
qed

lemma shuffle_mset: "is_permuting shuffle \<Longrightarrow> mset (fst (shuffle g xs)) = mset xs"
  by (simp add: is_permuting_def)

lemma stratified_split_steps:
  assumes canon: "\<forall>r\<in>set rows. canonical_target r"
    and ratios: "0 \<le> r_tr" "0 \<le> r_va"
    and fm: "nonneg_product fmul"
    and pos: "shuffle (seed_rng seed) (filter (\<lambda>r. map_of r ''target'' = Some (JInt 1)) rows) = (pos, g1)"
    and neg: "shuffle g1 (filter (\<lambda>r. map_of r ''target'' = Some (JInt 0)) rows) = (neg, g2)"
    and train: "shuffle g2 (take (nat \<lfloor>fmul (length pos) r_tr\<rfloor>) pos @
                            take (nat \<lfloor>fmul (length neg) r_tr\<rfloor>) neg) = (train, g3)"
    and val: "shuffle g3 (take (nat \<lfloor>fmul (length pos) r_va\<rfloor>)
                             (drop (nat \<lfloor>fmul (length pos) r_tr\<rfloor>) pos) @
                          take (nat \<lfloor>fmul (length neg) r_va\<rfloor>)
                             (drop (nat \<lfloor>fmul (length neg) r_tr\<rfloor>) neg)) = (val, g4)"
    and test: "shuffle g4 (drop (nat \<lfloor>fmul (length pos) r_tr\<rfloor> + nat \<lfloor>fmul (length pos) r_va\<rfloor>) pos @
                           drop (nat \<lfloor>fmul (length neg) r_tr\<rfloor> + nat \<lfloor>fmul (length neg) r_va\<rfloor>) neg)
                 = (test, g5)"
  shows "stratified_split seed_rng shuffle fmul g rows seed (r_tr, r_va, r_te) = (Inr (train, val, test), g5)"
proof -
  have sel1: "select_target 1 rows = Inr (filter (\<lambda>r. map_of r ''target'' = Some (JInt 1)) rows)"
    and sel0: "select_target 0 rows = Inr (filter (\<lambda>r. map_of r ''target'' = Some (JInt 0)) rows)"
    using select_target_canonical [OF canon] by simp_all
  have nn: "\<And>n. 0 \<le> fmul n r_tr" "\<And>n. 0 \<le> fmul n r_va"
    using fm ratios by (simp_all add: nonneg_product_def)
  have bucket: "\<And>b. split_bucket fmul (r_tr, r_va, r_te) b =
           (take (nat \<lfloor>fmul (length b) r_tr\<rfloor>) b,
            take (nat \<lfloor>fmul (length b) r_va\<rfloor>) (drop (nat \<lfloor>fmul (length b) r_tr\<rfloor>) b),
            drop (nat \<lfloor>fmul (length b) r_tr\<rfloor> + nat \<lfloor>fmul (length b) r_va\<rfloor>) b)"
    by (rule split_bucket_nonneg) (rule nn)+
  show ?thesis
    unfolding stratified_split_def
    by (simp add: sel1 sel0 Let_def pos neg bucket train val test)
qed

text \<open>
  C4, as the code has it: on a pool of canonical rows, with ratios that are non-negative
  and sum to 1, the splitter returns exactly this. The rows labelled 1 and the rows
  labelled 0 are shuffled, in this order, by the generator the seed gives; of each
  shuffled sub-pool of size \<open>n\<close> the first \<open>\<lfloor>n * r_tr\<rfloor>\<close> rows go to train, the next
  \<open>\<lfloor>n * r_va\<rfloor>\<close> to val and the remainder to test, the products being the rounded float
  products of the code; each split is the positive slice followed by the negative slice,
  shuffled by the same generator in the state the previous shuffle left. Every row of the
  pool is in exactly one of the three (as multisets, train + val + test is the pool), and
  the sizes add up.
\<close>

theorem stratified_split_conservation:
  assumes perm: "is_permuting shuffle"
    and fm: "nonneg_product fmul"
    and canon: "\<forall>r\<in>set rows. canonical_target r"
    and ratios: "0 \<le> r_tr" "0 \<le> r_va" "0 \<le> r_te" "r_tr + r_va + r_te = 1"
  shows "let (pos, g1) = shuffle (seed_rng seed) (filter (\<lambda>r. map_of r ''target'' = Some (JInt 1)) rows);
             (neg, g2) = shuffle g1 (filter (\<lambda>r. map_of r ''target'' = Some (JInt 0)) rows);
             p_tr = nat \<lfloor>fmul (length pos) r_tr\<rfloor>;
             p_va = nat \<lfloor>fmul (length pos) r_va\<rfloor>;
             n_tr = nat \<lfloor>fmul (length neg) r_tr\<rfloor>;
             n_va = nat \<lfloor>fmul (length neg) r_va\<rfloor>;
             (train, g3) = shuffle g2 (take p_tr pos @ take n_tr neg);
             (val, g4) = shuffle g3 (take p_va (drop p_tr pos) @ take n_va (drop n_tr neg));
             (test, g5) = shuffle g4 (drop (p_tr + p_va) pos @ drop (n_tr + n_va) neg)
         in stratified_split seed_rng shuffle fmul g rows seed (r_tr, r_va, r_te) =
              (Inr (train, val, test), g5) \<and>
            mset train + mset val + mset test = mset rows \<and>
            length train + length val + length test = length rows"
proof -
  let ?P = "filter (\<lambda>r. map_of r ''target'' = Some (JInt 1)) rows"
  let ?N = "filter (\<lambda>r. map_of r ''target'' = Some (JInt 0)) rows"
  obtain pos g1 where pos: "shuffle (seed_rng seed) ?P = (pos, g1)" by fastforce
  obtain neg g2 where neg: "shuffle g1 ?N = (neg, g2)" by fastforce
  define ptr where "ptr = take (nat \<lfloor>fmul (length pos) r_tr\<rfloor>) pos"
  define pva where "pva = take (nat \<lfloor>fmul (length pos) r_va\<rfloor>)
                              (drop (nat \<lfloor>fmul (length pos) r_tr\<rfloor>) pos)"
  define pte where "pte = drop (nat \<lfloor>fmul (length pos) r_tr\<rfloor> +
                                   nat \<lfloor>fmul (length pos) r_va\<rfloor>) pos"
  define ntr where "ntr = take (nat \<lfloor>fmul (length neg) r_tr\<rfloor>) neg"
  define nva where "nva = take (nat \<lfloor>fmul (length neg) r_va\<rfloor>)
                              (drop (nat \<lfloor>fmul (length neg) r_tr\<rfloor>) neg)"
  define nte where "nte = drop (nat \<lfloor>fmul (length neg) r_tr\<rfloor> +
                                   nat \<lfloor>fmul (length neg) r_va\<rfloor>) neg"
  obtain train g3 where train: "shuffle g2 (ptr @ ntr) = (train, g3)" by fastforce
  obtain val g4 where val: "shuffle g3 (pva @ nva) = (val, g4)" by fastforce
  obtain test g5 where test: "shuffle g4 (pte @ nte) = (test, g5)" by fastforce
  have res: "stratified_split seed_rng shuffle fmul g rows seed (r_tr, r_va, r_te) =
               (Inr (train, val, test), g5)"
    using stratified_split_steps
      [where shuffle = shuffle and seed_rng = seed_rng and seed = seed and fmul = fmul
         and rows = rows and r_tr = r_tr and r_va = r_va and r_te = r_te and g = g
         and pos = pos and ?g1.0 = g1 and neg = neg and ?g2.0 = g2
         and train = train and ?g3.0 = g3 and val = val and ?g4.0 = g4
         and test = test and ?g5.0 = g5]
      canon ratios(1,2) fm pos neg train val test
    by (simp add: ptr_def pva_def pte_def ntr_def nva_def nte_def)
  have mpos: "mset pos = mset ?P"
    using shuffle_mset [OF perm, of "seed_rng seed" ?P] pos by simp
  have mneg: "mset neg = mset ?N"
    using shuffle_mset [OF perm, of g1 ?N] neg by simp
  have mtr: "mset train = mset ptr + mset ntr"
    using shuffle_mset [OF perm, of g2 "ptr @ ntr"] train by simp
  have mva: "mset val = mset pva + mset nva"
    using shuffle_mset [OF perm, of g3 "pva @ nva"] val by simp
  have mte: "mset test = mset pte + mset nte"
    using shuffle_mset [OF perm, of g4 "pte @ nte"] test by simp
  have "mset ptr + mset pva + mset pte = mset pos" and "mset ntr + mset nva + mset nte = mset neg"
    using three_slices by (simp_all add: ptr_def pva_def pte_def ntr_def nva_def nte_def)
  then have "mset train + mset val + mset test = mset pos + mset neg"
    using mtr mva mte by (metis (no_types, lifting) add.assoc add.left_commute)
  then have all: "mset train + mset val + mset test = mset rows"
    using mpos mneg canonical_partition [OF canon] by simp
  then have "size (mset train + mset val + mset test) = size (mset rows)" by simp
  then have len: "length train + length val + length test = length rows" by simp
  show ?thesis
    using res all len train val test
    unfolding Let_def ptr_def pva_def pte_def ntr_def nva_def nte_def
    by (simp add: pos neg)
qed

lemma split_example:
  "stratified_split (\<lambda>s. nat \<bar>s\<bar>) (\<lambda>(g::nat) xs. (rev xs, Suc g)) (\<lambda>n r. real n * r) 0
     [[(''processed_func'', JStr ''a''), (''target'', JInt 1)],
      [(''processed_func'', JStr ''b''), (''target'', JInt 0)],
      [(''processed_func'', JStr ''c''), (''target'', JInt 1)],
      [(''processed_func'', JStr ''d''), (''target'', JInt 1)]] 123456 (1/2, 1/4, 1/4)
   = (Inr ([[(''processed_func'', JStr ''d''), (''target'', JInt 1)]],
           [],
           [[(''processed_func'', JStr ''b''), (''target'', JInt 0)],
            [(''processed_func'', JStr ''a''), (''target'', JInt 1)],
            [(''processed_func'', JStr ''c''), (''target'', JInt 1)]]), 123461)"
  by (simp add: stratified_split_def split_bucket_def truncate_real_def slice_to_def
      slice_between_def slice_from_def slice_bound_def Let_def)

theorem stratified_split_conservation_witness:
  "is_permuting (\<lambda>(g::nat) (xs::row list). (rev xs, Suc g)) \<and>
   nonneg_product (\<lambda>n r. real n * r) \<and>
   list_all canonical_target
     [[(''processed_func'', JStr ''a''), (''target'', JInt 1)],
      [(''processed_func'', JStr ''b''), (''target'', JInt 0)],
      [(''processed_func'', JStr ''c''), (''target'', JInt 1)],
      [(''processed_func'', JStr ''d''), (''target'', JInt 1)]] \<and>
   (1/2 + 1/4 + 1/4 :: real) = 1 \<and>
   stratified_split (\<lambda>s. nat \<bar>s\<bar>) (\<lambda>(g::nat) xs. (rev xs, Suc g)) (\<lambda>n r. real n * r) 0
     [[(''processed_func'', JStr ''a''), (''target'', JInt 1)],
      [(''processed_func'', JStr ''b''), (''target'', JInt 0)],
      [(''processed_func'', JStr ''c''), (''target'', JInt 1)],
      [(''processed_func'', JStr ''d''), (''target'', JInt 1)]] 123456 (1/2, 1/4, 1/4)
   = (Inr ([[(''processed_func'', JStr ''d''), (''target'', JInt 1)]],
           [],
           [[(''processed_func'', JStr ''b''), (''target'', JInt 0)],
            [(''processed_func'', JStr ''a''), (''target'', JInt 1)],
            [(''processed_func'', JStr ''c''), (''target'', JInt 1)]]), 123461)"
proof -
  let ?S = "\<lambda>(g::nat) (xs::row list). (rev xs, Suc g)"
  let ?R = "[[(''processed_func'', JStr ''a''), (''target'', JInt 1)],
      [(''processed_func'', JStr ''b''), (''target'', JInt 0)],
      [(''processed_func'', JStr ''c''), (''target'', JInt 1)],
      [(''processed_func'', JStr ''d''), (''target'', JInt 1)]]"
  have p: "is_permuting ?S" by (simp add: is_permuting_def)
  have f: "nonneg_product (\<lambda>n r. real n * r)" by (simp add: nonneg_product_def)
  have c: "\<forall>r\<in>set ?R. canonical_target r" by (simp add: canonical_target_def)
  have r: "(0::real) \<le> 1/2" "(0::real) \<le> 1/4" "(1/2::real) + 1/4 + 1/4 = 1" by simp_all
  note inst = stratified_split_conservation [OF p f c r(1) r(2) r(2) r(3), of "\<lambda>s. nat \<bar>s\<bar>" 123456 0]
  show ?thesis
    using inst split_example p f c by (simp add: canonical_target_def)
qed

text \<open>
  The claim as written, for all ratios that sum to 1, fails on a negative ratio, which
  reaches Python's slicing from the end: with the ratios -0.25, 0.75 and 0.5 (whose products
  with 4 are exact) a pool of four rows is split into five, the row \<open>b\<close> in train and
  in test.
\<close>

theorem stratified_split_negative_ratio_counterexample:
  "(- (1/4) + 3/4 + 1/2 :: real) = 1 \<and>
   list_all canonical_target
     [[(''processed_func'', JStr ''a''), (''target'', JInt 1)],
      [(''processed_func'', JStr ''b''), (''target'', JInt 1)],
      [(''processed_func'', JStr ''c''), (''target'', JInt 1)],
      [(''processed_func'', JStr ''d''), (''target'', JInt 1)]] \<and>
   stratified_split (\<lambda>s. nat \<bar>s\<bar>) (\<lambda>(g::nat) xs. (rev xs, Suc g)) (\<lambda>n r. real n * r) 0
     [[(''processed_func'', JStr ''a''), (''target'', JInt 1)],
      [(''processed_func'', JStr ''b''), (''target'', JInt 1)],
      [(''processed_func'', JStr ''c''), (''target'', JInt 1)],
      [(''processed_func'', JStr ''d''), (''target'', JInt 1)]] 123456 (- (1/4), 3/4, 1/2)
   = (Inr ([[(''processed_func'', JStr ''b''), (''target'', JInt 1)],
            [(''processed_func'', JStr ''c''), (''target'', JInt 1)],
            [(''processed_func'', JStr ''d''), (''target'', JInt 1)]],
           [],
           [[(''processed_func'', JStr ''a''), (''target'', JInt 1)],
            [(''processed_func'', JStr ''b''), (''target'', JInt 1)]]), 123461)"
  by (simp add: canonical_target_def stratified_split_def split_bucket_def truncate_real_def
      slice_to_def slice_between_def slice_from_def slice_bound_def Let_def)

text \<open>
  C5: the splitter seeds the generator before it draws from it, so its result (and the
  generator state it leaves) is a function of the pool, the seed and the ratios alone: two
  invocations with the same three arguments return the same three row sequences, whatever
  state the generator was in before each.
\<close>

theorem stratified_split_deterministic:
  "stratified_split seed_rng shuffle fmul g rows seed ratios =
   stratified_split seed_rng shuffle fmul g' rows seed ratios"
  by (simp add: stratified_split_def)

section \<open>The row builder\<close>














section \<open>Malformed input lines\<close>

lemma extract_loop_total:
  "extract_loop dumps (st\<lparr>total := total st + k\<rparr>) ls =
     (case extract_loop dumps st ls of Inl e \<Rightarrow> Inl e | Inr s \<Rightarrow> Inr (s\<lparr>total := total s + k\<rparr>))"
proof (induction ls arbitrary: st)
  case Nil
  then show ?case by simp
next
  case (Cons l ls)
  show ?case
  proof (cases l)
    case Blank
    then show ?thesis using Cons.IH by simp
  next
    case Malformed
    then show ?thesis using Cons.IH [of "st\<lparr>total := total st + 1\<rparr>"] by simp
  next
    case (Parsed sample)
    show ?thesis
    proof (cases sample)
      case (JObj x)
      show ?thesis
      proof (cases "is_c_function x")
        case False
        then show ?thesis
          using Parsed JObj Cons.IH [of "st\<lparr>total := total st + 1\<rparr>"] by simp
      next
        case True
        then show ?thesis
          using Parsed JObj
            Cons.IH [of "\<lparr>total = total st + 1,
                     kept_rows = kept_rows st + 1,
                     row_index = row_index st + 1,
                     written = written st @ [csv_row dumps (row_index st) x]\<rparr>"]
          by simp
      qed
    qed (use Parsed in simp_all)
  qed
qed

lemma extract_loop_malformed:
  "extract_loop dumps st (pre @ Malformed # post) =
     (case extract_loop dumps st (pre @ post) of Inl e \<Rightarrow> Inl e | Inr s \<Rightarrow> Inr (s\<lparr>total := total s + 1\<rparr>))"
proof (induction pre arbitrary: st)
  case Nil
  then show ?case using extract_loop_total [of dumps st 1 post] by simp
next
  case (Cons l ls)
  show ?case
  proof (cases l)
    case (Parsed sample)
    show ?thesis
      by (cases sample) (use Parsed Cons.IH in simp_all)
  qed (use Cons.IH in simp_all)
qed

text \<open>
  C10, as the code has it: in the PrimeVul transformer a malformed line anywhere in the
  input is skipped. The lines before and after it are processed as if it were not there,
  the run ends as it would without it, and the only trace is one more line in \<open>total\<close>,
  the count of all non-empty lines read.
\<close>

theorem malformed_line_skipped:
  "extract_c_functions dumps (pre @ Malformed # post) =
     (case extract_c_functions dumps (pre @ post) of
        Inl e \<Rightarrow> Inl e
      | Inr s \<Rightarrow> Inr (s\<lparr>total := total s + 1\<rparr>))"
  by (simp add: extract_c_functions_def extract_loop_malformed)

text \<open>
  The claim as written fails twice. In the ReposVul transformer \<^verbatim>\<open>read_jsonl\<close> has no
  handler: a malformed line ends the run with \<^verbatim>\<open>JSONDecodeError\<close>, here after a good
  line. In the PrimeVul transformer no counter is distinct to malformed lines: the summary
  of a run over one malformed line is that of a run over one well-formed sample that is
  not a C function.
\<close>

theorem malformed_line_counterexample:
  "iter_rows (\<lambda>v. [])
     [Parsed (JObj [(''details'', JObj [(''code'', JStr ''int f(){}''), (''target'', JInt 1)])]),
      Malformed]
     \<lparr>skip_no_details = 0, skip_detail_not_dict = 0, skip_no_code = 0, skip_no_label = 0, kept = 0\<rparr>
   = Inl JSONDecodeError \<and>
   summary (extract_c_functions (\<lambda>v. []) [Malformed]) = Inr (1, 0) \<and>
   summary (extract_c_functions (\<lambda>v. []) [Parsed (JObj [])]) = Inr (1, 0)"
  by code_simp

section \<open>The schema normalizer\<close>

lemma cell_of_update: "cell_of (AList.update k v r) c = (if c = k then v else cell_of r c)"
  by (simp add: cell_of_def update_conv')

lemma cell_of_update_cell:
  "cell_of (update_cell k f r) c = (if c = k then f (cell_of r k) else cell_of r c)"
  by (simp add: update_cell_def cell_of_update)

lemma fold_add_missing:
  assumes "distinct cs"
  shows "\<exists>g. records (fold add_missing cs df) = map g (records df) \<and>
             (\<forall>r k. cell_of (g r) k =
                (if k \<in> set cs \<and> k \<notin> set (columns df) then missing_default k else cell_of r k))"
  using assms
proof (induction cs arbitrary: df)
  case Nil
  have "records df = map id (records df)" by simp
  then show ?case by (intro exI [of _ id]) simp
next
  case (Cons c cs)
  then have d: "distinct cs" and c: "c \<notin> set cs" by simp_all
  from Cons.IH [OF d, of "add_missing c df"] obtain g where
    g: "records (fold add_missing cs (add_missing c df)) = map g (records (add_missing c df))"
    and gc: "\<And>r k. cell_of (g r) k =
                (if k \<in> set cs \<and> k \<notin> set (columns (add_missing c df)) then missing_default k
                 else cell_of r k)"
    by blast
  show ?case
  proof (cases "c \<in> set (columns df)")
    case True
    then have "add_missing c df = df" by (simp add: add_missing_def)
    then show ?thesis using g gc True by (intro exI [of _ g]) auto
  next
    case False
    then have r: "records (add_missing c df) = map (AList.update c (missing_default c)) (records df)"
      and k: "set (columns (add_missing c df)) = insert c (set (columns df))"
      by (simp_all add: add_missing_def assign_scalar_def)
    show ?thesis
      using g gc r k c False
      by (intro exI [of _ "g \<circ> AList.update c (missing_default c)"]) (auto simp: cell_of_update)
  qed
qed

lemma map_err_map: "map_err f (map p xs) = map_err (\<lambda>x. f (p x)) xs"
  by (induction xs) (auto split: sum.splits)

lemma map_err_post:
  "(case map_err f xs of Inl e \<Rightarrow> Inl e | Inr ys \<Rightarrow> Inr (map k ys)) =
   map_err (\<lambda>x. case f x of Inl e \<Rightarrow> Inl e | Inr y \<Rightarrow> Inr (k y)) xs"
  by (induction xs) (auto split: sum.splits)

lemma map_err_cong: "(\<And>x. x \<in> set xs \<Longrightarrow> f x = g x) \<Longrightarrow> map_err f xs = map_err g xs"
  by (induction xs) (auto split: sum.splits)

lemma distinct_required_cols: "distinct required_cols"
  by (simp add: required_cols_def)

lemma records_text_column: "records (text_column c d df) = map (update_cell c (text_cell d)) (records df)"
  by (simp add: text_column_def map_column_def)

lemma columns_text_column: "columns (text_column c d df) = columns df"
  by (simp add: text_column_def map_column_def)

lemma in_required_cols:
  "''processed_func'' \<in> set required_cols" "''target'' \<in> set required_cols"
  "''vul_func_with_fix'' \<in> set required_cols" "''cve_id'' \<in> set required_cols"
  "''cwe_id'' \<in> set required_cols" "''commit_id'' \<in> set required_cols"
  "''file_path'' \<in> set required_cols" "''file_language'' \<in> set required_cols"
  "''flaw_line_index'' \<in> set required_cols" "''flaw_line'' \<in> set required_cols"
  by (simp_all add: required_cols_def)

lemma ensure_rows:
  "ensure_reposvul_schema num df =
     (case map_err (normalize_row num (columns df)) (records df) of
        Inl e \<Rightarrow> Inl e
      | Inr rs \<Rightarrow> Inr \<lparr>columns = required_cols, records = rs\<rparr>)"
proof -
  from fold_add_missing [OF distinct_required_cols, of df] obtain g where
    g: "records (fold add_missing required_cols df) = map g (records df)"
    and gc: "\<And>r k. cell_of (g r) k =
               (if k \<in> set required_cols \<and> k \<notin> set (columns df) then missing_default k
                else cell_of r k)"
    by blast
  have start: "\<And>r k. k \<in> set required_cols \<Longrightarrow> cell_of (g r) k = start_cell (columns df) r k"
    by (simp add: gc start_cell_def)
  define P where "P = update_cell ''processed_func'' (\<lambda>v. clean_code_cell (astype_str v))"
  define T where "T = (\<lambda>r. case target_cell num (cell_of r ''target'') of
                          Inl e \<Rightarrow> Inl e
                        | Inr v \<Rightarrow> Inr (AList.update ''target'' v r))"
  define U where "U = (\<lambda>r. update_cell ''flaw_line'' (text_cell '''')
               (update_cell ''flaw_line_index'' (text_cell ''[]'')
               (update_cell ''file_language'' (text_cell ''C'')
               (update_cell ''file_path'' (text_cell ''-'')
               (update_cell ''commit_id'' (text_cell ''-'')
               (update_cell ''cwe_id'' (text_cell ''['-']'')
               (update_cell ''cve_id'' (text_cell ''-'')
               (update_cell ''vul_func_with_fix'' (text_cell ''-'') r))))))))"
  define K where "K = (\<lambda>r. map (\<lambda>c. (c, cell_of (U r) c)) required_cols)"
  have e: "ensure_reposvul_schema num df =
        (case map_err T (map (\<lambda>r. P (g r)) (records df)) of
           Inl e \<Rightarrow> Inl e
         | Inr rs \<Rightarrow> Inr \<lparr>columns = required_cols, records = map K rs\<rparr>)"
    by (simp add: ensure_reposvul_schema_def Let_def convert_target_def map_column_def g
        select_columns_def records_text_column T_def P_def K_def U_def o_def split: sum.splits)
  have "ensure_reposvul_schema num df =
        (case (case map_err (\<lambda>r. T (P (g r))) (records df) of
                 Inl e \<Rightarrow> Inl e | Inr rs \<Rightarrow> Inr (map K rs)) of
           Inl e \<Rightarrow> Inl e
         | Inr rs \<Rightarrow> Inr \<lparr>columns = required_cols, records = rs\<rparr>)"
    by (simp add: e map_err_map split: sum.splits)
  also have "(case map_err (\<lambda>r. T (P (g r))) (records df) of
                 Inl e \<Rightarrow> Inl e | Inr rs \<Rightarrow> Inr (map K rs)) =
             map_err (\<lambda>r. case T (P (g r)) of Inl e \<Rightarrow> Inl e | Inr y \<Rightarrow> Inr (K y)) (records df)"
    by (rule map_err_post)
  also have "\<dots> = map_err (normalize_row num (columns df)) (records df)"
  proof (rule map_err_cong)
    fix r
    have t: "cell_of (P (g r)) ''target'' = start_cell (columns df) r ''target''"
      by (simp add: P_def cell_of_update_cell start in_required_cols)
    show "(case T (P (g r)) of Inl e \<Rightarrow> Inl e | Inr y \<Rightarrow> Inr (K y)) = normalize_row num (columns df) r"
      by (simp add: T_def t normalize_row_def K_def U_def required_cols_def
          cell_of_update_cell cell_of_update P_def start in_required_cols split: sum.splits)
  qed
  finally show ?thesis .
qed

lemma set_py_strip: "set (py_strip s) \<subseteq> set s"
proof -
  have "set (dropWhile py_isspace (rev (dropWhile py_isspace s))) \<subseteq> set (rev (dropWhile py_isspace s))"
    by (meson set_dropWhileD subsetI)
  also have "\<dots> \<subseteq> set s" by (auto dest: set_dropWhileD)
  finally show ?thesis by (simp add: py_strip_def)
qed

lemma dropWhile_last: "dropWhile P xs \<noteq> [] \<Longrightarrow> last (dropWhile P xs) = last xs"
  by (induction xs) (auto split: if_splits)

lemma dropWhile_fixed: "xs = [] \<or> \<not> P (hd xs) \<Longrightarrow> dropWhile P xs = xs"
  by (cases xs) auto

lemma py_strip_idem: "py_strip (py_strip s) = py_strip s"
proof -
  define a where "a = dropWhile py_isspace s"
  define b where "b = dropWhile py_isspace (rev a)"
  have b_fixed: "dropWhile py_isspace b = b" by (simp add: b_def)
  have "dropWhile py_isspace (rev b) = rev b"
  proof (cases "b = []")
    case True
    then show ?thesis by simp
  next
    case False
    then have "last b = last (rev a)" unfolding b_def by (rule dropWhile_last)
    moreover have "a \<noteq> []" using False by (auto simp: b_def)
    ultimately have "last b = hd a" by (simp add: last_rev)
    moreover have "\<not> py_isspace (hd a)"
      using \<open>a \<noteq> []\<close> unfolding a_def by (rule hd_dropWhile)
    ultimately have "\<not> py_isspace (hd (rev b))" using False by (simp add: hd_rev)
    then show ?thesis by (rule dropWhile_fixed [OF disjI2])
  qed
  then show ?thesis by (simp add: py_strip_def a_def [symmetric] b_def [symmetric] b_fixed)
qed

lemma set_replace_crlf: "set (replace_crlf s) \<subseteq> set s"
  by (induction s rule: replace_crlf.induct) auto

lemma replace_crlf_fixed: "CHR 0x0D \<notin> set s \<Longrightarrow> replace_crlf s = s"
  by (induction s rule: replace_crlf.induct) auto

lemma replace_cr_fixed: "CHR 0x0D \<notin> set s \<Longrightarrow> replace_cr s = s"
  by (induction s) (auto simp: replace_cr_def)

lemma remove_nul_fixed: "CHR 0x00 \<notin> set s \<Longrightarrow> remove_nul s = s"
  by (induction s) (auto simp: remove_nul_def)

lemma no_cr_replace_cr: "CHR 0x0D \<notin> set (replace_cr s)"
  by (auto simp: replace_cr_def)

lemma no_nul_normalize_text: "CHR 0x00 \<notin> set (normalize_text s)"
proof -
  have "CHR 0x00 \<notin> set (remove_nul s)" by (simp add: remove_nul_def)
  then have "CHR 0x00 \<notin> set (replace_crlf (remove_nul s))" using set_replace_crlf by blast
  then have "CHR 0x00 \<notin> set (replace_cr (replace_crlf (remove_nul s)))"
    by (auto simp: replace_cr_def)
  then show ?thesis using set_py_strip by (auto simp: normalize_text_def)
qed

lemma no_cr_normalize_text: "CHR 0x0D \<notin> set (normalize_text s)"
  using no_cr_replace_cr set_py_strip by (auto simp: normalize_text_def)

lemma normalize_text_idem: "normalize_text (normalize_text s) = normalize_text s"
proof -
  let ?t = "normalize_text s"
  have "normalize_text ?t = py_strip ?t"
    unfolding normalize_text_def [of ?t]
    by (simp add: remove_nul_fixed [OF no_nul_normalize_text]
        replace_crlf_fixed [OF no_cr_normalize_text] replace_cr_fixed [OF no_cr_normalize_text])
  also have "\<dots> = ?t" by (simp add: normalize_text_def py_strip_idem)
  finally show ?thesis .
qed

lemma astype_str_is_str: "\<exists>s. astype_str v = StrV s"
  by (cases v) auto

lemma clean_code_cell_str: "clean_code_cell (StrV s) = StrV (normalize_text s)"
  by simp

lemma clean_code_cell_idem:
  "clean_code_cell (astype_str (clean_code_cell (astype_str v))) = clean_code_cell (astype_str v)"
proof -
  obtain s where "astype_str v = StrV s" using astype_str_is_str by blast
  then show ?thesis by (simp add: normalize_text_idem)
qed

lemma text_cell_is_str: "\<exists>s. text_cell d v = StrV s"
  by (cases v) (auto simp: text_cell_def)

lemma text_cell_idem: "text_cell d' (text_cell d v) = text_cell d v"
proof -
  obtain s where "text_cell d v = StrV s" using text_cell_is_str by blast
  then show ?thesis by (simp add: text_cell_def [of d'])
qed

lemma target_cell_int: "target_cell num v = Inr t \<Longrightarrow> \<exists>i. t = IntV i"
  by (cases v) (auto split: numeric.splits)

lemma target_cell_idem: "target_cell num v = Inr t \<Longrightarrow> target_cell num t = Inr t"
  using target_cell_int by fastforce

lemma start_cell_required:
  "c \<in> set required_cols \<Longrightarrow> start_cell required_cols r c = cell_of r c"
  by (simp add: start_cell_def)

lemma normalize_row_idem:
  assumes "normalize_row num cols r = Inr r'"
  shows "normalize_row num required_cols r' = Inr r'"
proof -
  obtain t where t: "target_cell num (start_cell cols r ''target'') = Inr t"
    and r': "r' = [(''processed_func'', clean_code_cell (astype_str (start_cell cols r ''processed_func''))),
               (''target'', t),
               (''vul_func_with_fix'', text_cell ''-'' (start_cell cols r ''vul_func_with_fix'')),
               (''cve_id'', text_cell ''-'' (start_cell cols r ''cve_id'')),
               (''cwe_id'', text_cell ''['-']'' (start_cell cols r ''cwe_id'')),
               (''commit_id'', text_cell ''-'' (start_cell cols r ''commit_id'')),
               (''file_path'', text_cell ''-'' (start_cell cols r ''file_path'')),
               (''file_language'', text_cell ''C'' (start_cell cols r ''file_language'')),
               (''flaw_line_index'', text_cell ''[]'' (start_cell cols r ''flaw_line_index'')),
               (''flaw_line'', text_cell '''' (start_cell cols r ''flaw_line''))]"
    using assms by (auto simp: normalize_row_def split: sum.splits)
  have cells:
    "cell_of r' ''processed_func'' = clean_code_cell (astype_str (start_cell cols r ''processed_func''))"
    "cell_of r' ''target'' = t"
    "cell_of r' ''vul_func_with_fix'' = text_cell ''-'' (start_cell cols r ''vul_func_with_fix'')"
    "cell_of r' ''cve_id'' = text_cell ''-'' (start_cell cols r ''cve_id'')"
    "cell_of r' ''cwe_id'' = text_cell ''['-']'' (start_cell cols r ''cwe_id'')"
    "cell_of r' ''commit_id'' = text_cell ''-'' (start_cell cols r ''commit_id'')"
    "cell_of r' ''file_path'' = text_cell ''-'' (start_cell cols r ''file_path'')"
    "cell_of r' ''file_language'' = text_cell ''C'' (start_cell cols r ''file_language'')"
    "cell_of r' ''flaw_line_index'' = text_cell ''[]'' (start_cell cols r ''flaw_line_index'')"
    "cell_of r' ''flaw_line'' = text_cell '''' (start_cell cols r ''flaw_line'')"
    by (simp_all add: r' cell_of_def)
  have starts: "\<And>c. c \<in> set required_cols \<Longrightarrow> start_cell required_cols r' c = cell_of r' c"
    by (rule start_cell_required)
  have "normalize_row num required_cols r' =
          Inr [(''processed_func'', cell_of r' ''processed_func''),
               (''target'', cell_of r' ''target''),
               (''vul_func_with_fix'', cell_of r' ''vul_func_with_fix''),
               (''cve_id'', cell_of r' ''cve_id''),
               (''cwe_id'', cell_of r' ''cwe_id''),
               (''commit_id'', cell_of r' ''commit_id''),
               (''file_path'', cell_of r' ''file_path''),
               (''file_language'', cell_of r' ''file_language''),
               (''flaw_line_index'', cell_of r' ''flaw_line_index''),
               (''flaw_line'', cell_of r' ''flaw_line'')]"
    unfolding normalize_row_def [of num required_cols r']
    by (simp add: starts in_required_cols cells target_cell_idem [OF t]
        clean_code_cell_idem text_cell_idem del: clean_code_cell.simps)
  also have "\<dots> = Inr r'"
    unfolding cells by (simp only: r')
  finally show ?thesis .
qed

lemma map_err_Inr_iff: "map_err f xs = Inr ys \<longleftrightarrow> list_all2 (\<lambda>x y. f x = Inr y) xs ys"
proof (induction xs arbitrary: ys)
  case Nil
  then show ?case by auto
next
  case (Cons x xs)
  show ?case
  proof (cases ys)
    case Nil
    then show ?thesis by (auto split: sum.splits)
  next
    case (Cons y ys')
    then show ?thesis
      by (auto simp: Cons.IH [symmetric] split: sum.splits)
  qed
qed

lemma map_err_fixed: "(\<forall>x\<in>set xs. f x = Inr x) \<Longrightarrow> map_err f xs = Inr xs"
  by (induction xs) auto

lemma ensure_Inr:
  "ensure_reposvul_schema num df = Inr out \<longleftrightarrow>
     columns out = required_cols \<and>
     list_all2 (\<lambda>r r'. normalize_row num (columns df) r = Inr r') (records df) (records out)"
proof (cases "map_err (normalize_row num (columns df)) (records df)")
  case (Inl e)
  then have "\<not> list_all2 (\<lambda>r r'. normalize_row num (columns df) r = Inr r') (records df) (records out)"
    using map_err_Inr_iff [of "normalize_row num (columns df)" "records df" "records out"] by simp
  then show ?thesis using Inl by (simp add: ensure_rows)
next
  case (Inr rs)
  then have "list_all2 (\<lambda>r r'. normalize_row num (columns df) r = Inr r') (records df) (records out)
               \<longleftrightarrow> records out = rs"
    using map_err_Inr_iff [of "normalize_row num (columns df)" "records df" "records out"] by auto
  moreover have "ensure_reposvul_schema num df = Inr \<lparr>columns = required_cols, records = rs\<rparr>"
    using Inr by (simp add: ensure_rows)
  moreover have "(\<lparr>columns = required_cols, records = rs\<rparr> = out)
                   \<longleftrightarrow> columns out = required_cols \<and> records out = rs"
    by (cases out) auto
  ultimately show ?thesis by auto
qed

text \<open>
  C8: when the normalizer returns a table, normalizing that table again returns it
  unchanged; the output has as many rows as the input, and its row at each position is
  the normalization of the input row at that position, so no row is dropped or moved.
\<close>

theorem ensure_reposvul_schema_idempotent:
  assumes "ensure_reposvul_schema num df = Inr out"
  shows "ensure_reposvul_schema num out = Inr out \<and>
         length (records out) = length (records df) \<and>
         (\<forall>i<length (records df).
            normalize_row num (columns df) (records df ! i) = Inr (records out ! i))"
proof -
  from assms have c: "columns out = required_cols"
    and l: "list_all2 (\<lambda>r r'. normalize_row num (columns df) r = Inr r') (records df) (records out)"
    by (simp_all add: ensure_Inr)
  have "\<forall>r'\<in>set (records out). normalize_row num required_cols r' = Inr r'"
  proof
    fix r' assume "r' \<in> set (records out)"
    then obtain i where "i < length (records out)" and "records out ! i = r'"
      by (auto simp: in_set_conv_nth)
    then have "normalize_row num (columns df) (records df ! i) = Inr r'"
      using l by (auto simp: list_all2_conv_all_nth)
    then show "normalize_row num required_cols r' = Inr r'" by (rule normalize_row_idem)
  qed
  then have "map_err (normalize_row num required_cols) (records out) = Inr (records out)"
    by (rule map_err_fixed)
  then have "ensure_reposvul_schema num out = Inr out"
    using c by (simp add: ensure_rows)
  then show ?thesis using l by (simp add: list_all2_conv_all_nth)
qed

lemma ensure_example:
  "ensure_reposvul_schema (\<lambda>s. NotNumeric)
     \<lparr>columns = [''processed_func'', ''target''],
      records = [[(''processed_func'', StrV '' int f(){} ''), (''target'', StrV ''yes'')]]\<rparr>
   = Inr \<lparr>columns = required_cols,
          records = [[(''processed_func'', StrV ''int f(){}''), (''target'', IntV 0),
            (''vul_func_with_fix'', StrV ''-''), (''cve_id'', StrV ''-''),
            (''cwe_id'', StrV ''-''), (''commit_id'', StrV ''-''),
            (''file_path'', StrV ''-''), (''file_language'', StrV ''-''),
            (''flaw_line_index'', StrV ''[]''), (''flaw_line'', StrV [])]]\<rparr>"
  by code_simp

theorem ensure_reposvul_schema_idempotent_witness:
  "ensure_reposvul_schema (\<lambda>s. NotNumeric)
     \<lparr>columns = [''processed_func'', ''target''],
      records = [[(''processed_func'', StrV '' int f(){} ''), (''target'', StrV ''yes'')]]\<rparr>
   = Inr \<lparr>columns = required_cols,
          records = [[(''processed_func'', StrV ''int f(){}''), (''target'', IntV 0),
            (''vul_func_with_fix'', StrV ''-''), (''cve_id'', StrV ''-''),
            (''cwe_id'', StrV ''-''), (''commit_id'', StrV ''-''),
            (''file_path'', StrV ''-''), (''file_language'', StrV ''-''),
            (''flaw_line_index'', StrV ''[]''), (''flaw_line'', StrV [])]]\<rparr> \<and>
   ensure_reposvul_schema (\<lambda>s. NotNumeric)
     \<lparr>columns = required_cols,
          records = [[(''processed_func'', StrV ''int f(){}''), (''target'', IntV 0),
            (''vul_func_with_fix'', StrV ''-''), (''cve_id'', StrV ''-''),
            (''cwe_id'', StrV ''-''), (''commit_id'', StrV ''-''),
            (''file_path'', StrV ''-''), (''file_language'', StrV ''-''),
            (''flaw_line_index'', StrV ''[]''), (''flaw_line'', StrV [])]]\<rparr>
   = Inr \<lparr>columns = required_cols,
          records = [[(''processed_func'', StrV ''int f(){}''), (''target'', IntV 0),
            (''vul_func_with_fix'', StrV ''-''), (''cve_id'', StrV ''-''),
            (''cwe_id'', StrV ''-''), (''commit_id'', StrV ''-''),
            (''file_path'', StrV ''-''), (''file_language'', StrV ''-''),
            (''flaw_line_index'', StrV ''[]''), (''flaw_line'', StrV [])]]\<rparr>"
  using ensure_reposvul_schema_idempotent [OF ensure_example] ensure_example
  by simp

lemma normalize_text_dash: "normalize_text ''-'' = ''-''"
  by code_simp

lemma normalize_row_cells:
  assumes "normalize_row num cols r = Inr r'"
  shows "cell_of r' ''processed_func'' = clean_code_cell (astype_str (start_cell cols r ''processed_func''))"
    "target_cell num (start_cell cols r ''target'') = Inr (cell_of r' ''target'')"
    "cell_of r' ''vul_func_with_fix'' = text_cell ''-'' (start_cell cols r ''vul_func_with_fix'')"
    "cell_of r' ''cve_id'' = text_cell ''-'' (start_cell cols r ''cve_id'')"
    "cell_of r' ''cwe_id'' = text_cell ''['-']'' (start_cell cols r ''cwe_id'')"
    "cell_of r' ''commit_id'' = text_cell ''-'' (start_cell cols r ''commit_id'')"
    "cell_of r' ''file_path'' = text_cell ''-'' (start_cell cols r ''file_path'')"
    "cell_of r' ''file_language'' = text_cell ''C'' (start_cell cols r ''file_language'')"
    "cell_of r' ''flaw_line_index'' = text_cell ''[]'' (start_cell cols r ''flaw_line_index'')"
    "cell_of r' ''flaw_line'' = text_cell [] (start_cell cols r ''flaw_line'')"
  using assms by (auto simp: normalize_row_def cell_of_def split: sum.splits)

lemma text_cell_dash: "text_cell d (StrV s) = StrV s"
  by (simp add: text_cell_def)

lemma missing_cell:
  assumes "c \<in> set required_cols" and "c \<notin> set cols" and "num ''-'' = NotNumeric"
    and "normalize_row num cols r = Inr r'"
  shows "cell_of r' c =
           (if c = ''flaw_line_index'' then StrV ''[]''
            else if c = ''flaw_line'' then StrV []
            else if c = ''target'' then IntV 0
            else StrV ''-'')"
proof -
  have s: "start_cell cols r c = missing_default c"
    using assms(2) by (simp add: start_cell_def)
  note cells = normalize_row_cells [OF assms(4)]
  from assms(1) have "c = ''processed_func'' \<or> c = ''target'' \<or> c = ''vul_func_with_fix''
    \<or> c = ''cve_id'' \<or> c = ''cwe_id'' \<or> c = ''commit_id'' \<or> c = ''file_path''
    \<or> c = ''file_language'' \<or> c = ''flaw_line_index'' \<or> c = ''flaw_line''"
    by (simp add: required_cols_def)
  then show ?thesis
  proof (elim disjE)
    assume "c = ''processed_func''"
    then show ?thesis using cells(1) s by (simp add: missing_default_def normalize_text_dash)
  next
    assume "c = ''target''"
    then show ?thesis using cells(2) s assms(3) by (simp add: missing_default_def)
  next
    assume "c = ''vul_func_with_fix''"
    then show ?thesis using cells(3) s by (simp add: missing_default_def text_cell_dash)
  next
    assume "c = ''cve_id''"
    then show ?thesis using cells(4) s by (simp add: missing_default_def text_cell_dash)
  next
    assume "c = ''cwe_id''"
    then show ?thesis using cells(5) s by (simp add: missing_default_def text_cell_dash)
  next
    assume "c = ''commit_id''"
    then show ?thesis using cells(6) s by (simp add: missing_default_def text_cell_dash)
  next
    assume "c = ''file_path''"
    then show ?thesis using cells(7) s by (simp add: missing_default_def text_cell_dash)
  next
    assume "c = ''file_language''"
    then show ?thesis using cells(8) s by (simp add: missing_default_def text_cell_dash)
  next
    assume "c = ''flaw_line_index''"
    then show ?thesis using cells(9) s by (simp add: missing_default_def text_cell_dash)
  next
    assume "c = ''flaw_line''"
    then show ?thesis using cells(10) s by (simp add: missing_default_def text_cell_dash)
  qed
qed

lemma normalize_row_keys: "normalize_row num cols r = Inr r' \<Longrightarrow> map fst r' = required_cols"
  by (auto simp: normalize_row_def required_cols_def split: sum.splits)

text \<open>
  C7: the normalizer returns exactly the required columns in their fixed order, in every
  row, and a column the input lacks is filled with "[]" for \<open>flaw_line_index\<close>, the empty
  string for \<open>flaw_line\<close>, 0 for \<open>target\<close> (the placeholder "-" is not a number) and "-"
  for every other column, \<open>file_language\<close> included: the default "C" of the source's
  \<^verbatim>\<open>fillna("C")\<close> is never reached.
\<close>

theorem ensure_missing_columns:
  assumes "ensure_reposvul_schema num df = Inr out" and "num ''-'' = NotNumeric"
  shows "columns out = required_cols \<and>
         (\<forall>r\<in>set (records out).
            map fst r = required_cols \<and>
            (\<forall>c\<in>set required_cols. c \<notin> set (columns df) \<longrightarrow>
               cell_of r c =
                 (if c = ''flaw_line_index'' then StrV ''[]''
                  else if c = ''flaw_line'' then StrV []
                  else if c = ''target'' then IntV 0
                  else StrV ''-'')))"
proof -
  from assms(1) have c: "columns out = required_cols"
    and l: "list_all2 (\<lambda>r r'. normalize_row num (columns df) r = Inr r') (records df) (records out)"
    by (simp_all add: ensure_Inr)
  have "\<And>r'. r' \<in> set (records out) \<Longrightarrow> \<exists>r. normalize_row num (columns df) r = Inr r'"
  proof -
    fix r' assume "r' \<in> set (records out)"
    then obtain i where "i < length (records out)" and "records out ! i = r'"
      by (auto simp: in_set_conv_nth)
    then have "normalize_row num (columns df) (records df ! i) = Inr r'"
      using l by (auto simp: list_all2_conv_all_nth)
    then show "\<exists>r. normalize_row num (columns df) r = Inr r'" by blast
  qed
  then have "\<forall>r\<in>set (records out).
            map fst r = required_cols \<and>
            (\<forall>c\<in>set required_cols. c \<notin> set (columns df) \<longrightarrow>
               cell_of r c =
                 (if c = ''flaw_line_index'' then StrV ''[]''
                  else if c = ''flaw_line'' then StrV []
                  else if c = ''target'' then IntV 0
                  else StrV ''-''))"
    using normalize_row_keys missing_cell [where num = num and cols = "columns df"] assms(2)
    by (intro ballI conjI impI) blast+
  then show ?thesis using c by blast
qed

theorem ensure_missing_columns_witness:
  "ensure_reposvul_schema (\<lambda>s. NotNumeric)
     \<lparr>columns = [''processed_func'', ''target''],
      records = [[(''processed_func'', StrV '' int f(){} ''), (''target'', StrV ''yes'')]]\<rparr>
   = Inr \<lparr>columns = required_cols,
          records = [[(''processed_func'', StrV ''int f(){}''), (''target'', IntV 0),
            (''vul_func_with_fix'', StrV ''-''), (''cve_id'', StrV ''-''),
            (''cwe_id'', StrV ''-''), (''commit_id'', StrV ''-''),
            (''file_path'', StrV ''-''), (''file_language'', StrV ''-''),
            (''flaw_line_index'', StrV ''[]''), (''flaw_line'', StrV [])]]\<rparr> \<and>
   (\<lambda>s. NotNumeric) ''-'' = NotNumeric \<and>
   ''file_language'' \<in> set required_cols \<and>
   ''file_language'' \<notin> set [''processed_func'', ''target''] \<and>
   cell_of [(''processed_func'', StrV ''int f(){}''), (''target'', IntV 0),
            (''vul_func_with_fix'', StrV ''-''), (''cve_id'', StrV ''-''),
            (''cwe_id'', StrV ''-''), (''commit_id'', StrV ''-''),
            (''file_path'', StrV ''-''), (''file_language'', StrV ''-''),
            (''flaw_line_index'', StrV ''[]''), (''flaw_line'', StrV [])] ''file_language'' = StrV ''-''"
  using ensure_missing_columns [OF ensure_example] ensure_example
  by (simp add: in_required_cols cell_of_def)

lemma normalize_text_f: "normalize_text ''int f(){}'' = ''int f(){}''"
  by code_simp


section \<open>Deduplication by content fingerprint\<close>

lemma keep_first_map: "keep_first key seen (map f xs) = map f (keep_first (\<lambda>x. key (f x)) seen xs)"
  by (induction xs arbitrary: seen) auto

lemma keep_first_subseq: "subseq (keep_first key seen xs) xs"
  by (induction xs arbitrary: seen) auto

lemma keep_first_keys: "key ` set (keep_first key seen xs) = key ` set xs - set seen"
  by (induction xs arbitrary: seen) auto

lemma keep_first_distinct: "distinct (map key (keep_first key seen xs))"
proof (induction xs arbitrary: seen)
  case Nil
  then show ?case by simp
next
  case (Cons x xs)
  have "key x \<notin> key ` set (keep_first key (key x # seen) xs)"
    by (simp add: keep_first_keys)
  then show ?case using Cons.IH by auto
qed

lemma keep_first_snoc:
  "keep_first key seen (xs @ [x]) =
     keep_first key seen xs @ (if key x \<in> set seen \<union> key ` set xs then [] else [x])"
  by (induction xs arbitrary: seen) auto

lemma keep_first_positions:
  "keep_first key [] xs = map ((!) xs) (first_occurrences (map key xs))"
proof (induction xs rule: rev_induct)
  case Nil
  then show ?case by (simp add: first_occurrences_def)
next
  case (snoc x xs)
  let ?n = "length xs"
  let ?ks = "map key (xs @ [x])"
  have old: "filter (\<lambda>i. list_all (\<lambda>j. ?ks ! j \<noteq> ?ks ! i) [0..<i]) [0..<?n] =
             first_occurrences (map key xs)"
    unfolding first_occurrences_def length_map
    by (rule filter_cong) (auto simp: list_all_iff nth_append)
  have "list_all (\<lambda>j. ?ks ! j \<noteq> ?ks ! ?n) [0..<?n] \<longleftrightarrow> (\<forall>j<?n. key (xs ! j) \<noteq> key x)"
    by (auto simp: list_all_iff nth_append)
  also have "\<dots> \<longleftrightarrow> key x \<notin> key ` set xs"
  proof
    assume a: "\<forall>j<?n. key (xs ! j) \<noteq> key x"
    show "key x \<notin> key ` set xs"
    proof
      assume "key x \<in> key ` set xs"
      then obtain y where "y \<in> set xs" and "key x = key y" by blast
      then obtain j where "j < ?n" and "xs ! j = y" by (auto simp: in_set_conv_nth)
      with a \<open>key x = key y\<close> show False by auto
    qed
  next
    assume "key x \<notin> key ` set xs"
    then show "\<forall>j<?n. key (xs ! j) \<noteq> key x" by (metis image_eqI nth_mem)
  qed
  finally have last: "list_all (\<lambda>j. ?ks ! j \<noteq> ?ks ! ?n) [0..<?n] \<longleftrightarrow> key x \<notin> key ` set xs" .
  have occ: "first_occurrences ?ks =
             first_occurrences (map key xs) @ (if key x \<in> key ` set xs then [] else [?n])"
    using old last by (simp add: first_occurrences_def)
  have inb: "\<forall>i\<in>set (first_occurrences (map key xs)). i < ?n"
    by (auto simp: first_occurrences_def)
  have "map ((!) (xs @ [x])) (first_occurrences (map key xs)) =
        map ((!) xs) (first_occurrences (map key xs))"
    using inb by (auto simp: nth_append)
  then show ?case
    using snoc.IH occ by (simp add: keep_first_snoc)
qed

lemma keep_first_keep: "set (keep_first key seen xs) \<subseteq> set xs"
  by (induction xs arbitrary: seen) auto

lemma map_err_all: "(\<forall>x\<in>set xs. f x = Inr (g x)) \<Longrightarrow> map_err f xs = Inr (map g xs)"
  by (induction xs) auto

lemma hash_cell_fingerprint:
  "is_str (cell_of r ''processed_func'') \<Longrightarrow> hash_cell sha r = Inr (fingerprint sha r)"
  by (cases "cell_of r ''processed_func''") (simp_all add: hash_cell_def fingerprint_def)

lemma add_hash_column_pool:
  assumes "code_pool df"
  shows "add_hash_column sha df =
           Inr \<lparr>columns = columns df @ [''_h''],
                records = map (\<lambda>r. AList.update ''_h'' (fingerprint sha r) r) (records df)\<rparr>"
proof -
  have "\<forall>r\<in>set (records df).
          (case hash_cell sha r of Inl e \<Rightarrow> Inl e | Inr h \<Rightarrow> Inr (AList.update ''_h'' h r)) =
          Inr (AList.update ''_h'' (fingerprint sha r) r)"
    using assms by (auto simp: code_pool_def list_all_iff hash_cell_fingerprint)
  from map_err_all [OF this] show ?thesis
    using assms by (simp add: add_hash_column_def code_pool_def)
qed

lemma delete_hash: "''_h'' \<notin> fst ` set r \<Longrightarrow> AList.delete ''_h'' (AList.update ''_h'' v r) = r"
  by (simp add: delete_update_same delete_id)

lemma deduplicate_records:
  assumes "code_pool df"
  shows "deduplicate_by_code sha df =
           Inr \<lparr>columns = columns df, records = keep_first (fingerprint sha) [] (records df)\<rparr>"
proof -
  let ?upd = "\<lambda>r. AList.update ''_h'' (fingerprint sha r) r"
  let ?kept = "keep_first (fingerprint sha) [] (records df)"
  have k: "keep_first (\<lambda>r. cell_of r ''_h'') [] (map ?upd (records df)) = map ?upd ?kept"
    by (simp add: keep_first_map cell_of_update)
  have "set ?kept \<subseteq> set (records df)"
    by (rule keep_first_keep)
  then have "\<forall>r\<in>set ?kept. ''_h'' \<notin> fst ` set r"
    using assms by (auto simp: code_pool_def list_all_iff)
  then have d: "map (AList.delete ''_h'' \<circ> ?upd) ?kept = ?kept"
    by (simp add: delete_hash map_idI)
  have c: "filter (\<lambda>k. k \<noteq> ''_h'') (columns df) = columns df"
    using assms by (auto simp: code_pool_def filter_id_conv)
  show ?thesis
    by (simp add: deduplicate_by_code_def add_hash_column_pool [OF assms] drop_duplicates_def
        drop_column_def k d c)
qed

text \<open>
  C6: on a pool whose code cells are strings, deduplication returns, on the same columns,
  exactly the rows at the positions where a fingerprint occurs for the first time, in their
  original order. The retained rows are a subsequence of the pool, no two of them have the
  same fingerprint, and every fingerprint of the pool is retained. The fingerprint reads
  the code cell alone: of two rows with equal code, whatever their labels, the later one is
  never at a retained position.
\<close>

theorem deduplicate_by_code_first_occurrences:
  assumes "code_pool df"
  shows "\<exists>out. deduplicate_by_code sha df = Inr out \<and>
           columns out = columns df \<and>
           records out =
             map ((!) (records df)) (first_occurrences (map (fingerprint sha) (records df))) \<and>
           subseq (records out) (records df) \<and>
           distinct (map (fingerprint sha) (records out)) \<and>
           set (map (fingerprint sha) (records out)) = set (map (fingerprint sha) (records df)) \<and>
           (\<forall>i j. i < j \<and> j < length (records df) \<and>
                  cell_of (records df ! i) ''processed_func'' = cell_of (records df ! j) ''processed_func''
                  \<longrightarrow> j \<notin> set (first_occurrences (map (fingerprint sha) (records df))))"
proof -
  let ?kept = "keep_first (fingerprint sha) [] (records df)"
  let ?out = "\<lparr>columns = columns df, records = ?kept\<rparr>"
  have keys: "set (map (fingerprint sha) ?kept) = set (map (fingerprint sha) (records df))"
    using keep_first_keys [of "fingerprint sha" "[]" "records df"] by simp
  have later: "j \<notin> set (first_occurrences (map (fingerprint sha) (records df)))"
    if "i < j" and "j < length (records df)"
      and "cell_of (records df ! i) ''processed_func'' = cell_of (records df ! j) ''processed_func''"
    for i j
  proof
    assume "j \<in> set (first_occurrences (map (fingerprint sha) (records df)))"
    then have "\<forall>k<j. map (fingerprint sha) (records df) ! k \<noteq> map (fingerprint sha) (records df) ! j"
      by (auto simp: first_occurrences_def list_all_iff)
    then have "fingerprint sha (records df ! i) \<noteq> fingerprint sha (records df ! j)"
      using that by auto
    then show False using that(3) by (simp add: fingerprint_def)
  qed
  have "deduplicate_by_code sha df = Inr ?out"
    by (rule deduplicate_records [OF assms])
  moreover have "records ?out = map ((!) (records df)) (first_occurrences (map (fingerprint sha) (records df)))"
    by (simp add: keep_first_positions)
  moreover have "subseq (records ?out) (records df)"
    by (simp add: keep_first_subseq)
  moreover have "distinct (map (fingerprint sha) (records ?out))"
    by (simp add: keep_first_distinct)
  ultimately show ?thesis using keys later
    by (intro exI [of _ ?out]) auto
qed

lemma dedup_example_pool:
  "code_pool
     \<lparr>columns = [''processed_func'', ''target''],
      records = [[(''processed_func'', StrV ''int f(){}''), (''target'', IntV 1)],
                 [(''processed_func'', StrV ''int f(){}''), (''target'', IntV 0)],
                 [(''processed_func'', StrV ''int g(){}''), (''target'', IntV 0)]]\<rparr>"
  by (simp add: code_pool_def cell_of_def)

lemma dedup_example:
  "deduplicate_by_code (\<lambda>text. ''sha256:'' @ text)
     \<lparr>columns = [''processed_func'', ''target''],
      records = [[(''processed_func'', StrV ''int f(){}''), (''target'', IntV 1)],
                 [(''processed_func'', StrV ''int f(){}''), (''target'', IntV 0)],
                 [(''processed_func'', StrV ''int g(){}''), (''target'', IntV 0)]]\<rparr>
   = Inr \<lparr>columns = [''processed_func'', ''target''],
      records = [[(''processed_func'', StrV ''int f(){}''), (''target'', IntV 1)],
                 [(''processed_func'', StrV ''int g(){}''), (''target'', IntV 0)]]\<rparr>"
  by code_simp

theorem deduplicate_by_code_first_occurrences_witness:
  "code_pool
     \<lparr>columns = [''processed_func'', ''target''],
      records = [[(''processed_func'', StrV ''int f(){}''), (''target'', IntV 1)],
                 [(''processed_func'', StrV ''int f(){}''), (''target'', IntV 0)],
                 [(''processed_func'', StrV ''int g(){}''), (''target'', IntV 0)]]\<rparr> \<and>
   deduplicate_by_code (\<lambda>text. ''sha256:'' @ text)
     \<lparr>columns = [''processed_func'', ''target''],
      records = [[(''processed_func'', StrV ''int f(){}''), (''target'', IntV 1)],
                 [(''processed_func'', StrV ''int f(){}''), (''target'', IntV 0)],
                 [(''processed_func'', StrV ''int g(){}''), (''target'', IntV 0)]]\<rparr>
   = Inr \<lparr>columns = [''processed_func'', ''target''],
      records = [[(''processed_func'', StrV ''int f(){}''), (''target'', IntV 1)],
                 [(''processed_func'', StrV ''int g(){}''), (''target'', IntV 0)]]\<rparr> \<and>
   first_occurrences (map (fingerprint (\<lambda>text. ''sha256:'' @ text))
     [[(''processed_func'', StrV ''int f(){}''), (''target'', IntV 1)],
      [(''processed_func'', StrV ''int f(){}''), (''target'', IntV 0)],
      [(''processed_func'', StrV ''int g(){}''), (''target'', IntV 0)]]) = [0, 2]"
proof -
  have occ: "first_occurrences (map (fingerprint (\<lambda>text. ''sha256:'' @ text))
     [[(''processed_func'', StrV ''int f(){}''), (''target'', IntV 1)],
      [(''processed_func'', StrV ''int f(){}''), (''target'', IntV 0)],
      [(''processed_func'', StrV ''int g(){}''), (''target'', IntV 0)]]) = [0, 2]"
    by code_simp
  from deduplicate_by_code_first_occurrences [OF dedup_example_pool, of "\<lambda>text. ''sha256:'' @ text"]
  show ?thesis using dedup_example_pool dedup_example occ by simp
qed

section \<open>The augmentation merge\<close>

lemma normalized_iff:
  "normalized num df \<longleftrightarrow>
     columns df = required_cols \<and> (\<forall>r\<in>set (records df). normalize_row num required_cols r = Inr r)"
proof -
  have "normalized num df \<longleftrightarrow>
          columns df = required_cols \<and>
          list_all2 (\<lambda>r r'. normalize_row num (columns df) r = Inr r') (records df) (records df)"
    by (simp add: normalized_def ensure_Inr)
  then show ?thesis by (auto simp: list_all2_same)
qed

lemma normalize_row_realign:
  assumes "normalize_row num cols r0 = Inr r"
  shows "map (\<lambda>c. (c, cell_of r c)) required_cols = r"
proof -
  obtain a b c d e f g h i j where
    "r = [(''processed_func'', a), (''target'', b), (''vul_func_with_fix'', c), (''cve_id'', d),
          (''cwe_id'', e), (''commit_id'', f), (''file_path'', g), (''file_language'', h),
          (''flaw_line_index'', i), (''flaw_line'', j)]"
    using assms by (auto simp: normalize_row_def split: sum.splits)
  then show ?thesis by (simp add: required_cols_def cell_of_def)
qed

lemma concat_normalized:
  assumes "normalized num a" and "normalized num b"
  shows "concat_frames a b = \<lparr>columns = required_cols, records = records a @ records b\<rparr>"
proof -
  from assms have ca: "columns a = required_cols" and cb: "columns b = required_cols"
    and rows: "\<forall>r\<in>set (records a @ records b). normalize_row num required_cols r = Inr r"
    by (auto simp: normalized_iff)
  have "map (\<lambda>r. map (\<lambda>c. (c, cell_of r c)) required_cols) (records a @ records b)
          = records a @ records b"
    using rows normalize_row_realign by (intro map_idI) blast
  then show ?thesis by (simp add: concat_frames_def ca cb Let_def)
qed

lemma normalized_records:
  assumes "\<forall>r\<in>set rs. normalize_row num required_cols r = Inr r"
  shows "normalized num \<lparr>columns = required_cols, records = rs\<rparr>"
  using assms by (simp add: normalized_iff)

lemma index_not_required: "''index'' \<notin> set required_cols"
  by (simp add: required_cols_def)

lemma processed_func_required: "''processed_func'' \<in> set required_cols"
  by (simp add: required_cols_def)

lemma final_cleanup_rows:
  assumes "\<forall>r\<in>set rs. normalize_row num required_cols r = Inr r"
  shows "final_cleanup num \<lparr>columns = required_cols, records = rs\<rparr> =
           Inr \<lparr>columns = required_cols, records = filter has_code rs\<rparr>"
proof -
  have "\<forall>r\<in>set (filter has_code rs). normalize_row num required_cols r = Inr r"
    using assms by simp
  then have "normalized num \<lparr>columns = required_cols, records = filter has_code rs\<rparr>"
    by (rule normalized_records)
  then have "ensure_reposvul_schema num \<lparr>columns = required_cols, records = filter has_code rs\<rparr>
               = Inr \<lparr>columns = required_cols, records = filter has_code rs\<rparr>"
    by (simp add: normalized_def)
  then show ?thesis
    by (simp add: final_cleanup_def nonempty_code_def processed_func_required)
qed

lemma final_cleanup_normalized:
  assumes "normalized num df"
  shows "final_cleanup num df = Inr \<lparr>columns = required_cols, records = filter has_code (records df)\<rparr>"
proof -
  from assms have c: "columns df = required_cols"
    and r: "\<forall>r\<in>set (records df). normalize_row num required_cols r = Inr r"
    by (simp_all add: normalized_iff)
  have "df = \<lparr>columns = required_cols, records = records df\<rparr>"
    using c by (cases df) simp
  then show ?thesis using final_cleanup_rows [OF r] by simp
qed

lemma add_index_column_clean:
  "add_index_column \<lparr>columns = required_cols, records = rs\<rparr> = Inr (indexed rs)"
  by (simp add: add_index_column_def indexed_def index_not_required)

lemma normalize_row_no_index:
  "normalize_row num cols r0 = Inr r \<Longrightarrow> ''index'' \<notin> fst ` set r"
  by (auto simp: normalize_row_def split: sum.splits)

lemma unindexed_indexed:
  assumes "\<forall>r\<in>set rs. normalize_row num required_cols r = Inr r"
  shows "unindexed \<lparr>columns = cs,
            records = map (\<lambda>(i, r). (''index'', IntV (int i)) # r) (enumerate 0 (filter has_code rs))\<rparr>
         = filter has_code rs"
proof -
  have "\<forall>r\<in>set (filter has_code rs). ''index'' \<notin> fst ` set r"
    using assms normalize_row_no_index by (metis filter_is_subset subsetD)
  moreover have "snd ` set (enumerate 0 (filter has_code rs)) = set (filter has_code rs)"
    by (metis list.set_map map_snd_enumerate)
  ultimately have "\<forall>p\<in>set (enumerate 0 (filter has_code rs)). ''index'' \<notin> fst ` set (snd p)"
    by blast
  then have "\<forall>p\<in>set (enumerate 0 (filter has_code rs)).
               AList.delete ''index'' ((\<lambda>(i, r). (''index'', IntV (int i)) # r) p) = snd p"
    by (auto simp: delete_id)
  then have "map (\<lambda>p. AList.delete ''index'' ((\<lambda>(i, r). (''index'', IntV (int i)) # r) p))
               (enumerate 0 (filter has_code rs)) = map snd (enumerate 0 (filter has_code rs))"
    by (intro map_cong) auto
  then show ?thesis by (simp add: unindexed_def o_def)
qed

lemma index_cells:
  "map (\<lambda>r. cell_of r ''index'') (map (\<lambda>(i, r). (''index'', IntV (int i)) # r) (enumerate 0 xs))
     = map (\<lambda>i. IntV (int i)) [0..<length xs]"
proof -
  have "map (\<lambda>i. IntV (int i)) [0..<length xs] = map (\<lambda>i. IntV (int i)) (map fst (enumerate 0 xs))"
    by simp
  also have "\<dots> = map (\<lambda>p. IntV (int (fst p))) (enumerate 0 xs)"
    unfolding map_map by (simp add: o_def)
  also have "\<dots> = map (\<lambda>r. cell_of r ''index'')
                      (map (\<lambda>(i, r). (''index'', IntV (int i)) # r) (enumerate 0 xs))"
    unfolding map_map by (rule map_cong) (auto simp: cell_of_def)
  finally show ?thesis by simp
qed

lemma cleanup_if_provided:
  assumes "\<forall>v. split = Some v \<longrightarrow> normalized num v"
  shows "if_provided (final_cleanup num) split =
           Inr (map_option (\<lambda>v. \<lparr>columns = required_cols, records = filter has_code (records v)\<rparr>) split)"
proof (cases split)
  case None
  then show ?thesis by (simp add: if_provided_def)
next
  case (Some v)
  then have "normalized num v" using assms by simp
  from final_cleanup_normalized [OF this] show ?thesis using Some by (simp add: if_provided_def)
qed

lemma index_if_provided:
  "if_provided add_index_column
     (map_option (\<lambda>v. \<lparr>columns = required_cols, records = filter has_code (records v)\<rparr>) split) =
   Inr (map_option (\<lambda>v. indexed (filter has_code (records v))) split)"
  by (cases split) (simp_all add: if_provided_def add_index_column_clean)

lemma augment_train_only_result:
  assumes "normalized num train" and "normalized num synth"
    and "\<forall>v. val = Some v \<longrightarrow> normalized num v"
    and "\<forall>t. test = Some t \<longrightarrow> normalized num t"
  shows "augment num Train_only train val test synth =
           Inr (indexed (filter has_code (records train @ records synth)),
                map_option (\<lambda>v. indexed (filter has_code (records v))) val,
                map_option (\<lambda>t. indexed (filter has_code (records t))) test)"
proof -
  have rows: "\<forall>r\<in>set (records train @ records synth). normalize_row num required_cols r = Inr r"
    using assms(1,2) by (auto simp: normalized_iff)
  have tr: "final_cleanup num (concat_frames train synth) =
              Inr \<lparr>columns = required_cols,
                    records = filter has_code (records train @ records synth)\<rparr>"
    using final_cleanup_rows [OF rows] by (simp add: concat_normalized [OF assms(1,2)])
  show ?thesis
    by (simp add: augment_def Let_def tr cleanup_if_provided [OF assms(3)]
        cleanup_if_provided [OF assms(4)] add_index_column_clean index_if_provided
        del: filter_append)
qed

lemma unindexed_normalized:
  assumes "\<forall>r\<in>set rs. normalize_row num required_cols r = Inr r"
  shows "unindexed (indexed (filter has_code rs)) = filter has_code rs"
  using unindexed_indexed [OF assms] by (simp add: indexed_def)

text \<open>
  C1, as the code has it: under the policy \<open>train_only\<close>, on normalized pools, the merger
  returns for train the real train pool followed by the synthetic pool, and for val and
  test the real val and test pools (a split that was not provided stays absent), each
  without its rows of empty code and with the index column added in front; val and test
  are computed from the real pools alone, the synthetic pool does not enter them. Without
  the index cell, the output rows are the rows of the pools themselves.
\<close>

theorem augment_train_only:
  assumes "normalized num train" and "normalized num synth"
    and "\<forall>v. val = Some v \<longrightarrow> normalized num v"
    and "\<forall>t. test = Some t \<longrightarrow> normalized num t"
  shows "augment num Train_only train val test synth =
           Inr (indexed (filter has_code (records train @ records synth)),
                map_option (\<lambda>v. indexed (filter has_code (records v))) val,
                map_option (\<lambda>t. indexed (filter has_code (records t))) test) \<and>
         unindexed (indexed (filter has_code (records train @ records synth))) =
           filter has_code (records train) @ filter has_code (records synth) \<and>
         (\<forall>v. val = Some v \<longrightarrow> unindexed (indexed (filter has_code (records v))) = filter has_code (records v)) \<and>
         (\<forall>t. test = Some t \<longrightarrow> unindexed (indexed (filter has_code (records t))) = filter has_code (records t))"
proof -
  have rows: "\<forall>r\<in>set (records train @ records synth). normalize_row num required_cols r = Inr r"
    using assms(1,2) by (auto simp: normalized_iff)
  have v: "unindexed (indexed (filter has_code (records v))) = filter has_code (records v)"
    if "val = Some v" for v
    using assms(3) that by (intro unindexed_normalized) (auto simp: normalized_iff)
  have t: "unindexed (indexed (filter has_code (records t))) = filter has_code (records t)"
    if "test = Some t" for t
    using assms(4) that by (intro unindexed_normalized) (auto simp: normalized_iff)
  show ?thesis
    using augment_train_only_result [OF assms] unindexed_normalized [OF rows] v t by simp
qed

lemma synthetic_row_normal:
  "normalize_text code = code \<Longrightarrow>
   normalize_row num required_cols (synthetic_row code label) = Inr (synthetic_row code label)"
  by (simp add: normalize_row_def start_cell_def cell_of_def synthetic_row_def text_cell_def
      required_cols_def)

lemma normalize_text_g: "normalize_text ''int g(){}'' = ''int g(){}''"
  by code_simp

lemma has_code_synthetic: "has_code (synthetic_row code label) \<longleftrightarrow> code \<noteq> []"
  by (simp add: has_code_def synthetic_row_def cell_of_def)

lemma example_pools_normalized:
  "normalized num \<lparr>columns = required_cols, records = [synthetic_row ''int g(){}'' 1]\<rparr>"
  "normalized num \<lparr>columns = required_cols, records = [synthetic_row ''int f(){}'' 0]\<rparr>"
  "normalized num \<lparr>columns = required_cols, records = [synthetic_row ''int f(){}'' 1]\<rparr>"
  by (simp_all add: normalized_iff synthetic_row_normal normalize_text_f normalize_text_g)

theorem augment_train_only_witness:
  "normalized (\<lambda>s. NotNumeric) \<lparr>columns = required_cols, records = [synthetic_row ''int g(){}'' 1]\<rparr> \<and>
   normalized (\<lambda>s. NotNumeric) \<lparr>columns = required_cols, records = [synthetic_row ''int f(){}'' 1]\<rparr> \<and>
   normalized (\<lambda>s. NotNumeric) \<lparr>columns = required_cols, records = [synthetic_row ''int f(){}'' 0]\<rparr> \<and>
   augment (\<lambda>s. NotNumeric) Train_only
     \<lparr>columns = required_cols, records = [synthetic_row ''int g(){}'' 1]\<rparr>
     (Some \<lparr>columns = required_cols, records = [synthetic_row ''int f(){}'' 0]\<rparr>)
     None
     \<lparr>columns = required_cols, records = [synthetic_row ''int f(){}'' 1]\<rparr>
   = Inr (indexed [synthetic_row ''int g(){}'' 1, synthetic_row ''int f(){}'' 1],
          Some (indexed [synthetic_row ''int f(){}'' 0]),
          None)"
  using augment_train_only
    [OF example_pools_normalized(1) [of "\<lambda>s. NotNumeric"]
        example_pools_normalized(3) [of "\<lambda>s. NotNumeric"],
     of "Some \<lparr>columns = required_cols, records = [synthetic_row ''int f(){}'' 0]\<rparr>" None]
    example_pools_normalized [of "\<lambda>s. NotNumeric"]
  by (simp add: has_code_synthetic)

text \<open>
  The fingerprint guard of the claim does not follow: nothing compares the synthetic pool
  with val or test. When a synthetic row has the code of a real val row, the val row is
  kept, and its fingerprint is that of the synthetic row, for every digest function.
\<close>

theorem augment_leak_counterexample:
  "\<forall>num sha.
     normalized num \<lparr>columns = required_cols, records = [synthetic_row ''int g(){}'' 1]\<rparr> \<and>
     normalized num \<lparr>columns = required_cols, records = [synthetic_row ''int f(){}'' 0]\<rparr> \<and>
     normalized num \<lparr>columns = required_cols, records = [synthetic_row ''int f(){}'' 1]\<rparr> \<and>
     augment num Train_only
       \<lparr>columns = required_cols, records = [synthetic_row ''int g(){}'' 1]\<rparr>
       (Some \<lparr>columns = required_cols, records = [synthetic_row ''int f(){}'' 0]\<rparr>)
       None
       \<lparr>columns = required_cols, records = [synthetic_row ''int f(){}'' 1]\<rparr>
     = Inr (indexed [synthetic_row ''int g(){}'' 1, synthetic_row ''int f(){}'' 1],
            Some \<lparr>columns = ''index'' # required_cols,
                   records = [(''index'', IntV 0) # synthetic_row ''int f(){}'' 0]\<rparr>,
            None) \<and>
     fingerprint sha ((''index'', IntV 0) # synthetic_row ''int f(){}'' 0) =
     fingerprint sha (synthetic_row ''int f(){}'' 1)"
proof (intro allI)
  fix num :: "string \<Rightarrow> numeric" and sha :: "string \<Rightarrow> string"
  have "augment num Train_only
       \<lparr>columns = required_cols, records = [synthetic_row ''int g(){}'' 1]\<rparr>
       (Some \<lparr>columns = required_cols, records = [synthetic_row ''int f(){}'' 0]\<rparr>)
       None
       \<lparr>columns = required_cols, records = [synthetic_row ''int f(){}'' 1]\<rparr>
     = Inr (indexed [synthetic_row ''int g(){}'' 1, synthetic_row ''int f(){}'' 1],
            Some (indexed [synthetic_row ''int f(){}'' 0]), None)"
    using augment_train_only_result
      [OF example_pools_normalized(1) [of num] example_pools_normalized(3) [of num],
       of "Some \<lparr>columns = required_cols, records = [synthetic_row ''int f(){}'' 0]\<rparr>" None]
      example_pools_normalized(2) [of num]
    by (simp add: has_code_synthetic)
  moreover have "indexed [synthetic_row ''int f(){}'' 0] =
      \<lparr>columns = ''index'' # required_cols,
       records = [(''index'', IntV 0) # synthetic_row ''int f(){}'' 0]\<rparr>"
    by (simp add: indexed_def)
  moreover have "fingerprint sha ((''index'', IntV 0) # synthetic_row ''int f(){}'' 0) =
     fingerprint sha (synthetic_row ''int f(){}'' 1)"
    by (simp add: fingerprint_def cell_of_def synthetic_row_def)
  ultimately show "normalized num \<lparr>columns = required_cols, records = [synthetic_row ''int g(){}'' 1]\<rparr> \<and>
     normalized num \<lparr>columns = required_cols, records = [synthetic_row ''int f(){}'' 0]\<rparr> \<and>
     normalized num \<lparr>columns = required_cols, records = [synthetic_row ''int f(){}'' 1]\<rparr> \<and>
     augment num Train_only
       \<lparr>columns = required_cols, records = [synthetic_row ''int g(){}'' 1]\<rparr>
       (Some \<lparr>columns = required_cols, records = [synthetic_row ''int f(){}'' 0]\<rparr>)
       None
       \<lparr>columns = required_cols, records = [synthetic_row ''int f(){}'' 1]\<rparr>
     = Inr (indexed [synthetic_row ''int g(){}'' 1, synthetic_row ''int f(){}'' 1],
            Some \<lparr>columns = ''index'' # required_cols,
                   records = [(''index'', IntV 0) # synthetic_row ''int f(){}'' 0]\<rparr>,
            None) \<and>
     fingerprint sha ((''index'', IntV 0) # synthetic_row ''int f(){}'' 0) =
     fingerprint sha (synthetic_row ''int f(){}'' 1)"
    using example_pools_normalized [of num] by simp
qed


end
